theory Spec2Isabelle
  imports Main "HOL-Library.Char_ord" "HOL-Library.List_Lexorder"
begin

section \<open>Data model\<close>

text \<open>
  The source file holds two variants of the class \<open>InstanceManager\<close>. The first (lines
  1 to 321) keeps an ActiveOwner record and per-peer lastseen records in localStorage and
  understands six message types; the second (lines 323 to 557) keeps only heartbeat records
  and understands three. A function that both variants define with different bodies carries
  the suffix \<open>1\<close> or \<open>2\<close> of its variant; a function with one body carries none.

  Peer ids are strings compared with JavaScript's \<open><\<close>, which is the lexicographic order of
  the code units: the order of \<open>char list\<close> from \<open>List_Lexorder\<close> over \<open>Char_ord\<close>.
\<close>

datatype message =
    Announce string
  | RequestElection string
  | ClaimActive string
  | Heartbeat string
  | Goodbye string
  | InstanceList "string list"

text \<open>The snapshot \<open>{isActive, instanceCount}\<close> handed to the consumer callback.\<close>

datatype InstanceState = InstanceState (snapActive: bool) (instanceCount: nat)

text \<open>
  One manager object together with the part of the browser it acts on.
  \<^item> \<open>instances\<close> is the JavaScript \<open>Set\<close>, kept as the list of its elements in insertion
    order; \<open>size\<close> is its length.
  \<^item> \<open>heartbeatInterval\<close> is the optional timer handle; \<open>intervals\<close> is the set of interval
    timers that are live in the window.
  \<^item> \<open>stateCallback\<close> says whether a consumer callback was given; \<open>notified\<close> lists the
    snapshots the callback has been invoked with, oldest first.
  \<^item> \<open>posted\<close> lists the messages posted on the BroadcastChannel, oldest first; \<open>closed\<close> is
    the channel's closed flag.
  \<^item> \<open>activeInstance\<close> is the localStorage entry under the \<open>_active\<close> key (first variant
    only); \<open>timestamps\<close> maps a peer id to the number stored under that peer's
    \<open>_lastseen_\<close> key (first variant) or heartbeat key (second variant). The stored text
    is always \<open>Date.now().toString()\<close>, and it is represented by the number it denotes.
\<close>

record manager =
  instanceId :: string
  isActive :: bool
  instances :: "string list"
  heartbeatInterval :: "nat option"
  stateCallback :: bool
  notified :: "InstanceState list"
  posted :: "message list"
  closed :: bool
  activeInstance :: "string option"
  timestamps :: "string \<rightharpoonup> int"
  intervals :: "nat set"

text \<open>
  \<open>BroadcastChannel.postMessage\<close> throws an \<open>InvalidStateError\<close> once the channel has been
  closed (HTML Standard, section on broadcasting to other browsing contexts, step 2 of
  \<open>postMessage\<close>). A JavaScript exception leaves every assignment made before it in place,
  so the exceptional outcome carries the state reached at the throw.
\<close>

datatype exn = InvalidStateError

datatype outcome = Returned manager | Threw exn manager

fun stateOf :: "outcome \<Rightarrow> manager" where
  "stateOf (Returned s) = s"
| "stateOf (Threw e s) = s"

fun returned :: "outcome \<Rightarrow> bool" where
  "returned (Returned s) = True"
| "returned (Threw e s) = False"

definition andThen :: "outcome \<Rightarrow> (manager \<Rightarrow> outcome) \<Rightarrow> outcome" where
  "andThen r f = (case r of Returned s \<Rightarrow> f s | Threw e s \<Rightarrow> Threw e s)"

definition HEARTBEAT_TIMEOUT :: int where
  "HEARTBEAT_TIMEOUT = 5000"

section \<open>Primitive effects\<close>

definition postMessage :: "message \<Rightarrow> manager \<Rightarrow> outcome" where
  "postMessage m s =
     (if closed s then Threw InvalidStateError s
      else Returned (s\<lparr>posted := posted s @ [m]\<rparr>))"

definition close :: "manager \<Rightarrow> manager" where
  "close s = s\<lparr>closed := True\<rparr>"

definition clearInterval :: "nat \<Rightarrow> manager \<Rightarrow> manager" where
  "clearInterval h s = s\<lparr>intervals := intervals s - {h}\<rparr>"

text \<open>\<open>Set.add\<close> and \<open>Set.delete\<close> on the insertion-ordered element list.\<close>

definition set_add :: "string \<Rightarrow> string list \<Rightarrow> string list" where
  "set_add p xs = (if p \<in> set xs then xs else xs @ [p])"

definition set_delete :: "string \<Rightarrow> string list \<Rightarrow> string list" where
  "set_delete p xs = removeAll p xs"

definition getState :: "manager \<Rightarrow> InstanceState" where
  "getState s = InstanceState (isActive s) (length (instances s))"

definition notifyStateChange :: "manager \<Rightarrow> manager" where
  "notifyStateChange s =
     (if stateCallback s then s\<lparr>notified := notified s @ [getState s]\<rparr> else s)"

text \<open>
  \<open>lastSeen && now - lastSeen > HEARTBEAT_TIMEOUT\<close> of the first variant, on the result of
  \<open>getLastSeen\<close>. In JavaScript \<open>null\<close> and the number \<open>0\<close> are falsy.
\<close>

definition staleRecord :: "int \<Rightarrow> int option \<Rightarrow> bool" where
  "staleRecord now v =
     (case v of None \<Rightarrow> False | Some t \<Rightarrow> t \<noteq> 0 \<and> now - t > HEARTBEAT_TIMEOUT)"

text \<open>
  \<open>!lastHeartbeat || now - lastHeartbeat > HEARTBEAT_TIMEOUT\<close> of the second variant.
\<close>

definition crashedRecord :: "int \<Rightarrow> int option \<Rightarrow> bool" where
  "crashedRecord now v =
     (case v of None \<Rightarrow> True | Some t \<Rightarrow> t = 0 \<or> now - t > HEARTBEAT_TIMEOUT)"

definition broadcastActiveClaim :: "manager \<Rightarrow> outcome" where
  "broadcastActiveClaim s = postMessage (ClaimActive (instanceId s)) s"

definition announcePresence :: "manager \<Rightarrow> outcome" where
  "announcePresence s = postMessage (Announce (instanceId s)) s"

definition becomeDormant :: "manager \<Rightarrow> manager" where
  "becomeDormant s = notifyStateChange (s\<lparr>isActive := False\<rparr>)"

section \<open>Second variant (heartbeat records only)\<close>

definition getHeartbeat :: "manager \<Rightarrow> string \<Rightarrow> int option" where
  "getHeartbeat s p = timestamps s p"

definition removeHeartbeat :: "string \<Rightarrow> manager \<Rightarrow> manager" where
  "removeHeartbeat p s = s\<lparr>timestamps := (timestamps s)(p := None)\<rparr>"

definition writeHeartbeat :: "int \<Rightarrow> manager \<Rightarrow> manager" where
  "writeHeartbeat now s = s\<lparr>timestamps := (timestamps s)(instanceId s \<mapsto> now)\<rparr>"

definition becomeActive2 :: "manager \<Rightarrow> outcome" where
  "becomeActive2 s =
     andThen (broadcastActiveClaim (s\<lparr>isActive := True\<rparr>))
       (\<lambda>s1. Returned (notifyStateChange s1))"

definition handleAnnounce2 :: "string \<Rightarrow> manager \<Rightarrow> outcome" where
  "handleAnnounce2 p s =
     (if p \<noteq> instanceId s then
        let s1 = s\<lparr>instances := set_add p (instances s)\<rparr> in
        andThen (if isActive s1 then broadcastActiveClaim s1 else Returned s1)
          (\<lambda>s2. Returned (notifyStateChange s2))
      else Returned s)"

definition handleActiveClaim2 :: "string \<Rightarrow> manager \<Rightarrow> outcome" where
  "handleActiveClaim2 p s =
     (if p \<noteq> instanceId s then
        let s1 = s\<lparr>instances := set_add p (instances s)\<rparr> in
        andThen
          (if isActive s1 then
             (if p < instanceId s1 then Returned (becomeDormant s1)
              else broadcastActiveClaim s1)
           else Returned (becomeDormant s1))
          (\<lambda>s2. Returned (notifyStateChange s2))
      else Returned s)"

definition handleGoodbye2 :: "string \<Rightarrow> manager \<Rightarrow> outcome" where
  "handleGoodbye2 p s =
     (let wasActive = (p < instanceId s \<or> length (instances s) = 1);
          s1 = removeHeartbeat p (s\<lparr>instances := set_delete p (instances s)\<rparr>)
      in andThen (if \<not> isActive s1 \<and> wasActive then becomeActive2 s1 else Returned s1)
           (\<lambda>s2. Returned (notifyStateChange s2)))"

text \<open>The \<open>onmessage\<close> dispatcher: message types without a case are ignored.\<close>

fun onmessage2 :: "message \<Rightarrow> manager \<Rightarrow> outcome" where
  "onmessage2 (Announce p) s = handleAnnounce2 p s"
| "onmessage2 (ClaimActive p) s = handleActiveClaim2 p s"
| "onmessage2 (Goodbye p) s = handleGoodbye2 p s"
| "onmessage2 m s = Returned s"

text \<open>
  The callback of the inner \<open>setTimeout\<close> of \<open>requestElection\<close>: it runs when the jitter
  and the 100ms grace window have elapsed.
\<close>

definition requestElection_timeout2 :: "manager \<Rightarrow> outcome" where
  "requestElection_timeout2 s = (if \<not> isActive s then becomeActive2 s else Returned s)"

definition evict :: "manager \<Rightarrow> string \<Rightarrow> manager" where
  "evict s p = removeHeartbeat p (s\<lparr>instances := set_delete p (instances s)\<rparr>)"

definition checkForCrashedInstances :: "int \<Rightarrow> manager \<Rightarrow> outcome" where
  "checkForCrashedInstances now s =
     (let crashed = filter (\<lambda>p. crashedRecord now (getHeartbeat s p)) (instances s) in
      if length crashed > 0 then
        let s1 = foldl evict s crashed in
        andThen
          (if \<not> isActive s1 \<and> length (instances s1) = 0 then becomeActive2 s1
           else Returned s1)
          (\<lambda>s2. Returned (notifyStateChange s2))
      else Returned s)"

text \<open>The callback of \<open>setInterval\<close> in \<open>startHeartbeat\<close>.\<close>

definition heartbeat_tick2 :: "int \<Rightarrow> manager \<Rightarrow> outcome" where
  "heartbeat_tick2 now s = checkForCrashedInstances now (writeHeartbeat now s)"

definition startHeartbeat2 :: "nat \<Rightarrow> int \<Rightarrow> manager \<Rightarrow> manager" where
  "startHeartbeat2 h now s =
     (writeHeartbeat now s)\<lparr>heartbeatInterval := Some h, intervals := insert h (intervals s)\<rparr>"

definition destroy2 :: "manager \<Rightarrow> outcome" where
  "destroy2 s =
     (let s1 = (case heartbeatInterval s of
                  None \<Rightarrow> s
                | Some h \<Rightarrow> if h \<noteq> 0 then clearInterval h s else s)
      in andThen (postMessage (Goodbye (instanceId s1)) s1)
           (\<lambda>s2. Returned (close (removeHeartbeat (instanceId s2) s2))))"

text \<open>
  The object as the field initialisers and the first assignments of the constructor leave
  it: a fresh, open channel, no peers, dormant. \<open>ident\<close> stands for the result of
  \<open>generateInstanceId\<close>, \<open>cb\<close> says whether \<open>onStateChange\<close> was given, and the last three
  arguments are the localStorage entries and the live timers found at construction.
\<close>

definition fresh :: "string \<Rightarrow> bool \<Rightarrow> string option \<Rightarrow> (string \<rightharpoonup> int) \<Rightarrow> nat set \<Rightarrow> manager" where
  "fresh ident cb act ts tm =
     \<lparr>instanceId = ident, isActive = False, instances = [], heartbeatInterval = None,
      stateCallback = cb, notified = [], posted = [], closed = False,
      activeInstance = act, timestamps = ts, intervals = tm\<rparr>"

text \<open>
  The constructor of the second variant; \<open>h\<close> is the handle \<open>setInterval\<close> returns.
  \<open>setupChannel\<close>, \<open>requestElection\<close> and \<open>setupBeforeUnload\<close> only register callbacks.
\<close>

definition constructor2 :: "string \<Rightarrow> bool \<Rightarrow> nat \<Rightarrow> int \<Rightarrow> (string \<rightharpoonup> int) \<Rightarrow> nat set \<Rightarrow> outcome" where
  "constructor2 ident cb h now ts tm =
     andThen (announcePresence (fresh ident cb None ts tm))
       (\<lambda>s. Returned (startHeartbeat2 h now s))"

section \<open>First variant (ActiveOwner and lastseen records)\<close>

text \<open>
  \<open>now\<close> is the value of \<open>Date.now()\<close> while the handler runs.
\<close>

definition setActiveInstance :: "string \<Rightarrow> manager \<Rightarrow> manager" where
  "setActiveInstance p s = s\<lparr>activeInstance := Some p\<rparr>"

definition getActiveInstance :: "manager \<Rightarrow> string option" where
  "getActiveInstance s = activeInstance s"

definition hasActiveInstance :: "manager \<Rightarrow> bool" where
  "hasActiveInstance s = (getActiveInstance s \<noteq> None)"

definition clearActiveInstance :: "manager \<Rightarrow> manager" where
  "clearActiveInstance s = s\<lparr>activeInstance := None\<rparr>"

definition updateLastSeen :: "int \<Rightarrow> string \<Rightarrow> manager \<Rightarrow> manager" where
  "updateLastSeen now p s = s\<lparr>timestamps := (timestamps s)(p \<mapsto> now)\<rparr>"

definition getLastSeen :: "manager \<Rightarrow> string \<Rightarrow> int option" where
  "getLastSeen s p = timestamps s p"

definition removeLastSeen :: "string \<Rightarrow> manager \<Rightarrow> manager" where
  "removeLastSeen p s = s\<lparr>timestamps := (timestamps s)(p := None)\<rparr>"

definition broadcastInstanceList :: "manager \<Rightarrow> outcome" where
  "broadcastInstanceList s = postMessage (InstanceList (instances s)) s"

definition becomeActive1 :: "manager \<Rightarrow> outcome" where
  "becomeActive1 s =
     andThen (broadcastActiveClaim (setActiveInstance (instanceId s) (s\<lparr>isActive := True\<rparr>)))
       (\<lambda>s1. Returned (notifyStateChange s1))"

definition handleAnnounce1 :: "int \<Rightarrow> string \<Rightarrow> manager \<Rightarrow> outcome" where
  "handleAnnounce1 now p s =
     (if p \<noteq> instanceId s then
        let s1 = updateLastSeen now p (s\<lparr>instances := set_add p (instances s)\<rparr>) in
        andThen (if isActive s1 then broadcastActiveClaim s1 else Returned s1)
          (\<lambda>s2. andThen (broadcastInstanceList s2)
             (\<lambda>s3. Returned (notifyStateChange s3)))
      else Returned s)"

definition handleElectionRequest :: "int \<Rightarrow> string \<Rightarrow> manager \<Rightarrow> outcome" where
  "handleElectionRequest now p s =
     (let s1 = (if p \<noteq> instanceId s
                then updateLastSeen now p (s\<lparr>instances := set_add p (instances s)\<rparr>)
                else s)
      in if isActive s1 then broadcastActiveClaim s1 else Returned s1)"

definition handleActiveClaim1 :: "int \<Rightarrow> string \<Rightarrow> manager \<Rightarrow> outcome" where
  "handleActiveClaim1 now p s =
     andThen
       (if p \<noteq> instanceId s \<and> isActive s then
          (if p < instanceId s then Returned (becomeDormant s)
           else broadcastActiveClaim s)
        else if p \<noteq> instanceId s then Returned (becomeDormant s)
        else Returned s)
       (\<lambda>s1. Returned (notifyStateChange
          (updateLastSeen now p (s1\<lparr>instances := set_add p (instances s1)\<rparr>))))"

definition handleHeartbeat :: "int \<Rightarrow> string \<Rightarrow> manager \<Rightarrow> outcome" where
  "handleHeartbeat now p s =
     (if p \<noteq> instanceId s then
        Returned (notifyStateChange
          (updateLastSeen now p (s\<lparr>instances := set_add p (instances s)\<rparr>)))
      else Returned s)"

definition handleGoodbye1 :: "string \<Rightarrow> manager \<Rightarrow> outcome" where
  "handleGoodbye1 p s =
     (let s1 = removeLastSeen p (s\<lparr>instances := set_delete p (instances s)\<rparr>) in
      andThen
        (if \<not> isActive s1 \<and> \<not> hasActiveInstance s1 then becomeActive1 s1 else Returned s1)
        (\<lambda>s2. Returned (notifyStateChange s2)))"

definition addListed :: "manager \<Rightarrow> string \<Rightarrow> manager" where
  "addListed s i =
     (if i \<noteq> instanceId s then s\<lparr>instances := set_add i (instances s)\<rparr> else s)"

definition handleInstanceList :: "string list \<Rightarrow> manager \<Rightarrow> outcome" where
  "handleInstanceList ids s = Returned (notifyStateChange (foldl addListed s ids))"

fun onmessage1 :: "int \<Rightarrow> message \<Rightarrow> manager \<Rightarrow> outcome" where
  "onmessage1 now (Announce p) s = handleAnnounce1 now p s"
| "onmessage1 now (RequestElection p) s = handleElectionRequest now p s"
| "onmessage1 now (ClaimActive p) s = handleActiveClaim1 now p s"
| "onmessage1 now (Heartbeat p) s = handleHeartbeat now p s"
| "onmessage1 now (Goodbye p) s = handleGoodbye1 p s"
| "onmessage1 now (InstanceList ids) s = handleInstanceList ids s"

text \<open>
  The two nested \<open>setTimeout\<close> callbacks of \<open>requestElection\<close>: the outer one runs after the
  jitter and posts \<open>request_election\<close>, the inner one runs 100ms later.
\<close>

definition requestElection_jitter1 :: "manager \<Rightarrow> outcome" where
  "requestElection_jitter1 s = postMessage (RequestElection (instanceId s)) s"

definition requestElection_timeout1 :: "manager \<Rightarrow> outcome" where
  "requestElection_timeout1 s =
     (if \<not> isActive s \<and> \<not> hasActiveInstance s then becomeActive1 s else Returned s)"

text \<open>
  The body of the \<open>forEach\<close> of \<open>cleanupStaleInstances\<close>, on the state and the flag
  \<open>changed\<close>. Deleting the element being visited does not disturb the iteration of a
  JavaScript \<open>Set\<close>, so the loop visits the elements present at its start.
\<close>

definition cleanupStep :: "int \<Rightarrow> manager \<times> bool \<Rightarrow> string \<Rightarrow> manager \<times> bool" where
  "cleanupStep now sc p =
     (if staleRecord now (getLastSeen (fst sc) p)
      then (removeLastSeen p ((fst sc)\<lparr>instances := set_delete p (instances (fst sc))\<rparr>), True)
      else sc)"

text \<open>
  The condition of the second part of \<open>cleanupStaleInstances\<close>: the \<open>_active\<close> entry is
  truthy (present and not the empty string), differs from the own id, and the entry's
  lastseen record is stale.
\<close>

definition staleOwner :: "int \<Rightarrow> manager \<Rightarrow> bool" where
  "staleOwner now s =
     (case getActiveInstance s of
        None \<Rightarrow> False
      | Some a \<Rightarrow> a \<noteq> [] \<and> a \<noteq> instanceId s \<and> staleRecord now (getLastSeen s a))"

definition cleanupStaleInstances :: "int \<Rightarrow> manager \<Rightarrow> outcome" where
  "cleanupStaleInstances now s =
     (let sc = foldl (cleanupStep now) (s, False) (instances s);
          s1 = fst sc
      in andThen
           (if staleOwner now s1 then
              (let s2 = clearActiveInstance s1 in
               if \<not> isActive s2 then becomeActive1 s2 else Returned s2)
            else Returned s1)
           (\<lambda>s3. Returned (if staleOwner now s1 \<or> snd sc then notifyStateChange s3 else s3)))"

definition heartbeat_tick1 :: "int \<Rightarrow> manager \<Rightarrow> outcome" where
  "heartbeat_tick1 now s =
     andThen (postMessage (Heartbeat (instanceId s)) s) (cleanupStaleInstances now)"

definition startHeartbeat1 :: "nat \<Rightarrow> manager \<Rightarrow> manager" where
  "startHeartbeat1 h s = s\<lparr>heartbeatInterval := Some h, intervals := insert h (intervals s)\<rparr>"

definition destroy1 :: "manager \<Rightarrow> outcome" where
  "destroy1 s =
     (let s1 = (case heartbeatInterval s of
                  None \<Rightarrow> s
                | Some h \<Rightarrow> if h \<noteq> 0 then clearInterval h s else s)
      in andThen (postMessage (Goodbye (instanceId s1)) s1)
           (\<lambda>s2. Returned (close (removeLastSeen (instanceId s2)
              (if isActive s2 then clearActiveInstance s2 else s2)))))"

definition constructor1 ::
  "string \<Rightarrow> bool \<Rightarrow> nat \<Rightarrow> int \<Rightarrow> string option \<Rightarrow> (string \<rightharpoonup> int) \<Rightarrow> nat set \<Rightarrow> outcome" where
  "constructor1 ident cb h now act ts tm =
     andThen (announcePresence (fresh ident cb act ts tm))
       (\<lambda>s. cleanupStaleInstances now (startHeartbeat1 h s))"

section \<open>Auxiliary notions for the properties\<close>

text \<open>
  The \<open>instanceId\<close> field that \<open>onmessage\<close> destructures from \<open>event.data\<close>; an
  \<open>instance_list\<close> message carries none.
\<close>

fun messageInstanceId :: "message \<Rightarrow> string option" where
  "messageInstanceId (Announce p) = Some p"
| "messageInstanceId (RequestElection p) = Some p"
| "messageInstanceId (ClaimActive p) = Some p"
| "messageInstanceId (Heartbeat p) = Some p"
| "messageInstanceId (Goodbye p) = Some p"
| "messageInstanceId (InstanceList ids) = None"

text \<open>The peer set never holds the manager's own id.\<close>

definition selfExcluded :: "manager \<Rightarrow> bool" where
  "selfExcluded s = (instanceId s \<notin> set (instances s))"

section \<open>Two managers on one channel\<close>

text \<open>
  The election of two managers of the second variant that share one BroadcastChannel. Both
  constructors have run; \<open>inboxA\<close> holds the messages posted by \<open>B\<close> and not yet delivered
  to \<open>A\<close>, and \<open>inboxB\<close> those posted by \<open>A\<close>; \<open>timerA\<close> and \<open>timerB\<close> say whether the
  \<open>setTimeout\<close> callback of \<open>requestElection\<close> has still to run. An event either runs a
  pending timeout callback or delivers one pending message, at any position of the inbox,
  to \<open>onmessage\<close>; the messages the callback posts are appended to the inbox of the other
  manager. No message is lost and none is delivered twice; no manager is shut down or
  crashes, and the heartbeat interval (2000ms) does not tick during the election.
\<close>

definition newPosts :: "manager \<Rightarrow> manager \<Rightarrow> message list" where
  "newPosts s s' = drop (length (posted s)) (posted s')"

text \<open>The inbox without the message at position \<open>i\<close>.\<close>

fun takeOut :: "nat \<Rightarrow> message list \<Rightarrow> message list" where
  "takeOut i [] = []"
| "takeOut i (m # ms) = (case i of 0 \<Rightarrow> ms | Suc j \<Rightarrow> m # takeOut j ms)"

record system =
  peerA :: manager
  peerB :: manager
  inboxA :: "message list"
  inboxB :: "message list"
  timerA :: bool
  timerB :: bool

datatype event = TimeoutA | TimeoutB | DeliverA nat | DeliverB nat

text \<open>One event; \<open>None\<close> when the event is not enabled.\<close>

fun fire :: "event \<Rightarrow> system \<Rightarrow> system option" where
  "fire TimeoutA c =
     (if timerA c then
        (let a = stateOf (requestElection_timeout2 (peerA c)) in
         Some (c\<lparr>peerA := a, timerA := False, inboxB := inboxB c @ newPosts (peerA c) a\<rparr>))
      else None)"
| "fire TimeoutB c =
     (if timerB c then
        (let b = stateOf (requestElection_timeout2 (peerB c)) in
         Some (c\<lparr>peerB := b, timerB := False, inboxA := inboxA c @ newPosts (peerB c) b\<rparr>))
      else None)"
| "fire (DeliverA i) c =
     (if i < length (inboxA c) then
        (let a = stateOf (onmessage2 (inboxA c ! i) (peerA c)) in
         Some (c\<lparr>peerA := a, inboxA := takeOut i (inboxA c),
                 inboxB := inboxB c @ newPosts (peerA c) a\<rparr>))
      else None)"
| "fire (DeliverB i) c =
     (if i < length (inboxB c) then
        (let b = stateOf (onmessage2 (inboxB c ! i) (peerB c)) in
         Some (c\<lparr>peerB := b, inboxB := takeOut i (inboxB c),
                 inboxA := inboxA c @ newPosts (peerB c) b\<rparr>))
      else None)"

fun run :: "event list \<Rightarrow> system \<Rightarrow> system option" where
  "run [] c = Some c"
| "run (e # es) c = (case fire e c of None \<Rightarrow> None | Some c' \<Rightarrow> run es c')"

text \<open>
  The two managers right after their constructors. The startup order decides which
  \<open>announce\<close> found a listener: \<open>heardA\<close> says that the announce of \<open>B\<close> reached the channel
  of \<open>A\<close>, \<open>heardB\<close> that the announce of \<open>A\<close> reached the channel of \<open>B\<close>.
\<close>

definition start :: "string \<Rightarrow> string \<Rightarrow> bool \<Rightarrow> bool \<Rightarrow> bool \<Rightarrow> bool \<Rightarrow> system" where
  "start idA idB cbA cbB heardA heardB =
     \<lparr>peerA = stateOf (constructor2 idA cbA 1 1000 Map.empty {}),
      peerB = stateOf (constructor2 idB cbB 1 1000 Map.empty {}),
      inboxA = (if heardA then [Announce idB] else []),
      inboxB = (if heardB then [Announce idA] else []),
      timerA = True, timerB = True\<rparr>"

text \<open>Nothing is left to happen: both timeouts have run and every message is delivered.\<close>

definition converged :: "system \<Rightarrow> bool" where
  "converged c = (\<not> timerA c \<and> \<not> timerB c \<and> inboxA c = [] \<and> inboxB c = [])"

text \<open>
  A bound on the events still to come: every pending timeout and every pending message
  counts for more than the one message its handling can post.
\<close>

fun weightA :: "message \<Rightarrow> nat" where
  "weightA m = 2"

fun weightB :: "message \<Rightarrow> nat" where
  "weightB (ClaimActive p) = 1"
| "weightB m = 3"

definition weight :: "system \<Rightarrow> nat" where
  "weight c = (if timerA c then 2 else 0) + (if timerB c then 3 else 0)
              + sum_list (map weightA (inboxA c)) + sum_list (map weightB (inboxB c))"

text \<open>
  The invariant of the election: \<open>A\<close> is active exactly when its timeout has run, and
  whenever \<open>B\<close> is active something is pending that will make \<open>A\<close> claim against it.
\<close>

definition election_inv :: "string \<Rightarrow> string \<Rightarrow> system \<Rightarrow> bool" where
  "election_inv idA idB c =
     (instanceId (peerA c) = idA \<and> instanceId (peerB c) = idB
      \<and> \<not> closed (peerA c) \<and> \<not> closed (peerB c)
      \<and> set (inboxA c) \<subseteq> {Announce idB, ClaimActive idB}
      \<and> set (inboxB c) \<subseteq> {Announce idA, ClaimActive idA}
      \<and> isActive (peerA c) = (\<not> timerA c)
      \<and> (isActive (peerB c) \<longrightarrow>
            ClaimActive idA \<in> set (inboxB c) \<or> timerA c \<or> ClaimActive idB \<in> set (inboxA c)))"



section \<open>Basic facts\<close>

lemmas handler_defs = andThen_def postMessage_def broadcastActiveClaim_def becomeDormant_def
  notifyStateChange_def set_add_def set_delete_def updateLastSeen_def getState_def

lemma instanceId_addListed [simp]: "instanceId (addListed s i) = instanceId s"
  by (simp add: addListed_def)

lemma instanceId_foldl_addListed [simp]: "instanceId (foldl addListed s ids) = instanceId s"
  by (induction ids arbitrary: s) simp_all

lemma foldl_addListed_excludes_self:
  "instanceId s \<notin> set (instances s) \<Longrightarrow>
   instanceId s \<notin> set (instances (foldl addListed s ids))"
proof (induction ids arbitrary: s)
  case Nil
  then show ?case by simp
next
  case (Cons i ids)
  have "instanceId (addListed s i) \<notin> set (instances (addListed s i))"
    using Cons.prems by (simp add: addListed_def set_add_def)
  from Cons.IH[OF this] show ?case by simp
qed

subsection \<open>The eviction loops\<close>

lemma evict_fields [simp]:
  "instanceId (evict s p) = instanceId s" "isActive (evict s p) = isActive s"
  "posted (evict s p) = posted s" "closed (evict s p) = closed s"
  "notified (evict s p) = notified s" "stateCallback (evict s p) = stateCallback s"
  "instances (evict s p) = removeAll p (instances s)"
  "timestamps (evict s p) = (timestamps s)(p := None)"
  by (simp_all add: evict_def removeHeartbeat_def set_delete_def)

lemma foldl_evict_fields [simp]:
  "instanceId (foldl evict s ps) = instanceId s" "isActive (foldl evict s ps) = isActive s"
  "posted (foldl evict s ps) = posted s" "closed (foldl evict s ps) = closed s"
  "notified (foldl evict s ps) = notified s"
  "stateCallback (foldl evict s ps) = stateCallback s"
  by (induction ps arbitrary: s) simp_all

lemma foldl_evict_instances:
  "instances (foldl evict s ps) = filter (\<lambda>x. x \<notin> set ps) (instances s)"
proof (induction ps arbitrary: s)
  case Nil
  then show ?case by simp
next
  case (Cons p ps)
  have "filter (\<lambda>x. x \<notin> set ps) (removeAll p xs) = filter (\<lambda>x. x \<notin> set (p # ps)) xs"
    for xs
    by (induction xs) auto
  then show ?case using Cons.IH[of "evict s p"] by simp
qed

lemma foldl_evict_timestamps:
  "timestamps (foldl evict s ps) x = (if x \<in> set ps then None else timestamps s x)"
  by (induction ps arbitrary: s) auto

lemma cleanup_fields:
  "instanceId (fst (foldl (cleanupStep now) (s, c) ps)) = instanceId s
 \<and> isActive (fst (foldl (cleanupStep now) (s, c) ps)) = isActive s
 \<and> posted (fst (foldl (cleanupStep now) (s, c) ps)) = posted s
 \<and> closed (fst (foldl (cleanupStep now) (s, c) ps)) = closed s
 \<and> notified (fst (foldl (cleanupStep now) (s, c) ps)) = notified s
 \<and> stateCallback (fst (foldl (cleanupStep now) (s, c) ps)) = stateCallback s
 \<and> activeInstance (fst (foldl (cleanupStep now) (s, c) ps)) = activeInstance s"
  by (induction ps arbitrary: s c) (simp_all add: cleanupStep_def removeLastSeen_def)

lemma cleanup_instances:
  "instances (fst (foldl (cleanupStep now) (s, c) ps))
     = filter (\<lambda>x. \<not> (x \<in> set ps \<and> staleRecord now (timestamps s x))) (instances s)"
proof (induction ps arbitrary: s c)
  case Nil
  then show ?case by simp
next
  case (Cons p ps)
  show ?case
  proof (cases "staleRecord now (timestamps s p)")
    case True
    have "filter (\<lambda>x. \<not> (x \<in> set ps \<and> staleRecord now (((timestamps s)(p := None)) x)))
            (removeAll p xs)
        = filter (\<lambda>x. \<not> (x \<in> set (p # ps) \<and> staleRecord now (timestamps s x))) xs" for xs
      using True unfolding removeAll_filter_not_eq filter_filter
      by (intro filter_cong refl) (auto simp: staleRecord_def)
    then show ?thesis
      using True Cons.IH[of "removeLastSeen p (s\<lparr>instances := set_delete p (instances s)\<rparr>)" True]
      by (simp add: cleanupStep_def getLastSeen_def removeLastSeen_def set_delete_def)
  next
    case False
    have "filter (\<lambda>x. \<not> (x \<in> set ps \<and> staleRecord now (timestamps s x))) (instances s)
        = filter (\<lambda>x. \<not> (x \<in> set (p # ps) \<and> staleRecord now (timestamps s x))) (instances s)"
      using False by (auto intro!: filter_cong)
    then show ?thesis using False Cons.IH[of s c]
      by (simp add: cleanupStep_def getLastSeen_def)
  qed
qed

lemma cleanup_timestamps:
  "timestamps (fst (foldl (cleanupStep now) (s, c) ps)) x
     = (if x \<in> set ps \<and> staleRecord now (timestamps s x) then None else timestamps s x)"
proof (induction ps arbitrary: s c)
  case Nil
  then show ?case by simp
next
  case (Cons p ps)
  show ?case
  proof (cases "staleRecord now (timestamps s p)")
    case True
    then show ?thesis
      using Cons.IH[of "removeLastSeen p (s\<lparr>instances := set_delete p (instances s)\<rparr>)" True]
      by (auto simp add: cleanupStep_def getLastSeen_def removeLastSeen_def staleRecord_def)
  next
    case False
    then show ?thesis using Cons.IH[of s c]
      by (auto simp add: cleanupStep_def getLastSeen_def)
  qed
qed

lemma cleanup_instances_self:
  "instances (fst (foldl (cleanupStep now) (s, c) (instances s)))
     = filter (\<lambda>x. \<not> staleRecord now (timestamps s x)) (instances s)"
  unfolding cleanup_instances by (intro filter_cong refl) auto

lemma cleanup_staleOwner:
  assumes "\<forall>a. activeInstance s = Some a \<longrightarrow>
             \<not> (a \<in> set (instances s) \<and> staleRecord now (timestamps s a))"
  shows "staleOwner now (fst (foldl (cleanupStep now) (s, False) (instances s)))
           = staleOwner now s"
  using assms cleanup_fields[of now s False "instances s"]
  by (auto simp add: staleOwner_def getActiveInstance_def getLastSeen_def cleanup_timestamps
      split: option.splits)

subsection \<open>The two scans\<close>

lemma promote_notify_fields:
  "instances (stateOf (andThen (if b then becomeActive2 s else Returned s)
      (\<lambda>s2. Returned (notifyStateChange s2)))) = instances s"
  "timestamps (stateOf (andThen (if b then becomeActive2 s else Returned s)
      (\<lambda>s2. Returned (notifyStateChange s2)))) = timestamps s"
  by (simp_all add: becomeActive2_def handler_defs)

lemma check_instances:
  "instances (stateOf (checkForCrashedInstances now s))
     = filter (\<lambda>x. \<not> crashedRecord now (timestamps s x)) (instances s)"
proof -
  let ?crashed = "filter (\<lambda>p. crashedRecord now (timestamps s p)) (instances s)"
  have eq: "filter (\<lambda>x. x \<notin> set ?crashed) (instances s)
          = filter (\<lambda>x. \<not> crashedRecord now (timestamps s x)) (instances s)"
    by (intro filter_cong refl) auto
  show ?thesis
  proof (cases "?crashed = []")
    case True
    then have "\<forall>x \<in> set (instances s). \<not> crashedRecord now (timestamps s x)"
      by (simp add: filter_empty_conv)
    then have "filter (\<lambda>x. \<not> crashedRecord now (timestamps s x)) (instances s) = instances s"
      by simp
    with True show ?thesis by (simp add: checkForCrashedInstances_def getHeartbeat_def)
  next
    case False
    then show ?thesis
      using eq
      by (simp add: checkForCrashedInstances_def getHeartbeat_def Let_def promote_notify_fields
          foldl_evict_instances)
  qed
qed

lemma check_timestamps:
  "timestamps (stateOf (checkForCrashedInstances now s)) x
     = (if x \<in> set (instances s) \<and> crashedRecord now (timestamps s x) then None
        else timestamps s x)"
  by (auto simp add: checkForCrashedInstances_def getHeartbeat_def Let_def promote_notify_fields
      foldl_evict_timestamps filter_empty_conv)

lemma cleanup_instances_all:
  "instances (stateOf (cleanupStaleInstances now s))
     = filter (\<lambda>x. \<not> staleRecord now (timestamps s x)) (instances s)"
  by (simp add: cleanupStaleInstances_def Let_def becomeActive1_def setActiveInstance_def
      clearActiveInstance_def handler_defs cleanup_instances_self)

lemma cleanup_timestamps_all:
  "timestamps (stateOf (cleanupStaleInstances now s)) x
     = (if x \<in> set (instances s) \<and> staleRecord now (timestamps s x) then None
        else timestamps s x)"
  by (simp add: cleanupStaleInstances_def Let_def becomeActive1_def setActiveInstance_def
      clearActiveInstance_def handler_defs cleanup_timestamps)

lemma cleanupStaleInstances_keeps:
  "instanceId (stateOf (cleanupStaleInstances now s)) = instanceId s"
  "closed (stateOf (cleanupStaleInstances now s)) = closed s"
  using cleanup_fields[of now s False "instances s"]
  by (simp_all add: cleanupStaleInstances_def Let_def becomeActive1_def setActiveInstance_def
      clearActiveInstance_def handler_defs)

subsection \<open>Newly constructed managers\<close>

lemma constructor1_state:
  "instances (stateOf (constructor1 ident cb h now act ts tm)) = []"
  "instanceId (stateOf (constructor1 ident cb h now act ts tm)) = ident"
  "closed (stateOf (constructor1 ident cb h now act ts tm)) = False"
  by (simp_all add: constructor1_def announcePresence_def postMessage_def andThen_def fresh_def
      startHeartbeat1_def cleanup_instances_all cleanupStaleInstances_keeps)

lemma constructor2_state:
  "instances (stateOf (constructor2 ident cb h now ts tm)) = []"
  "instanceId (stateOf (constructor2 ident cb h now ts tm)) = ident"
  "closed (stateOf (constructor2 ident cb h now ts tm)) = False"
  "isActive (stateOf (constructor2 ident cb h now ts tm)) = False"
  "posted (stateOf (constructor2 ident cb h now ts tm)) = [Announce ident]"
  "stateCallback (stateOf (constructor2 ident cb h now ts tm)) = cb"
  "notified (stateOf (constructor2 ident cb h now ts tm)) = []"
  "timestamps (stateOf (constructor2 ident cb h now ts tm)) = ts(ident \<mapsto> now)"
  by (simp_all add: constructor2_def announcePresence_def postMessage_def andThen_def fresh_def
      startHeartbeat2_def writeHeartbeat_def)

subsection \<open>Announce on an open channel\<close>

lemma handleAnnounce2_state:
  assumes "p \<noteq> instanceId s" and "\<not> closed s"
  shows "instances (stateOf (handleAnnounce2 p s)) = set_add p (instances s)"
    "instanceId (stateOf (handleAnnounce2 p s)) = instanceId s"
    "closed (stateOf (handleAnnounce2 p s)) = False"
    "isActive (stateOf (handleAnnounce2 p s)) = isActive s"
    "timestamps (stateOf (handleAnnounce2 p s)) = timestamps s"
    "activeInstance (stateOf (handleAnnounce2 p s)) = activeInstance s"
    "posted (stateOf (handleAnnounce2 p s))
       = posted s @ (if isActive s then [ClaimActive (instanceId s)] else [])"
    "stateCallback (stateOf (handleAnnounce2 p s)) = stateCallback s"
  using assms
  by (simp_all add: handleAnnounce2_def andThen_def postMessage_def broadcastActiveClaim_def
      notifyStateChange_def Let_def)

subsection \<open>Shutdown on a closed channel\<close>

lemma destroy_closes:
  "\<not> closed s \<Longrightarrow> closed (stateOf (destroy1 s)) \<and> closed (stateOf (destroy2 s))"
  by (simp add: destroy1_def destroy2_def clearInterval_def close_def removeLastSeen_def
      removeHeartbeat_def clearActiveInstance_def handler_defs Let_def split: option.splits)

lemma destroy_closed_throws:
  "closed s \<Longrightarrow> \<not> returned (destroy1 s) \<and> \<not> returned (destroy2 s)"
  by (simp add: destroy1_def destroy2_def clearInterval_def handler_defs Let_def
      split: option.splits)

section \<open>Shutdown\<close>

text \<open>
  C1 (as amended). On a manager whose channel is open, the first call of \<open>destroy\<close> returns.
  A second call does not return: its \<open>goodbye\<close> broadcast on the channel the first call
  closed throws \<open>InvalidStateError\<close>. At the throw nothing has changed: no second
  \<open>goodbye\<close> is posted, no localStorage entry is written or removed, and every field of the
  manager is as the first call left it. This holds for both variants.
\<close>

theorem destroy_twice_throws_unchanged:
  assumes "\<not> closed s"
  shows "returned (destroy1 s)
       \<and> destroy1 (stateOf (destroy1 s)) = Threw InvalidStateError (stateOf (destroy1 s))
       \<and> returned (destroy2 s)
       \<and> destroy2 (stateOf (destroy2 s)) = Threw InvalidStateError (stateOf (destroy2 s))"
  using assms
  by (auto simp add: destroy1_def destroy2_def clearInterval_def close_def removeLastSeen_def
      removeHeartbeat_def clearActiveInstance_def handler_defs Let_def split: option.splits)

theorem destroy_twice_throws_unchanged_witness:
  "\<not> closed (stateOf (constructor2 ''A'' True 1 1000 Map.empty {}))
   \<and> returned (destroy1 (stateOf (constructor2 ''A'' True 1 1000 Map.empty {})))
   \<and> destroy1 (stateOf (destroy1 (stateOf (constructor2 ''A'' True 1 1000 Map.empty {}))))
       = Threw InvalidStateError
           (stateOf (destroy1 (stateOf (constructor2 ''A'' True 1 1000 Map.empty {}))))
   \<and> returned (destroy2 (stateOf (constructor2 ''A'' True 1 1000 Map.empty {})))
   \<and> destroy2 (stateOf (destroy2 (stateOf (constructor2 ''A'' True 1 1000 Map.empty {}))))
       = Threw InvalidStateError
           (stateOf (destroy2 (stateOf (constructor2 ''A'' True 1 1000 Map.empty {}))))"
proof -
  have open_channel: "\<not> closed (stateOf (constructor2 ''A'' True 1 1000 Map.empty {}))"
    by (simp add: constructor2_state)
  from destroy_twice_throws_unchanged[OF open_channel] open_channel show ?thesis
    by blast
qed

text \<open>
  The second call of \<open>destroy\<close> is not a call that returns having done nothing: in both
  variants it ends in an exception.
\<close>

theorem destroy_second_call_counterexample:
  "\<not> returned (destroy1 (stateOf (destroy1
        (stateOf (constructor1 ''A'' True 1 1000 None Map.empty {})))))
   \<and> \<not> returned (destroy2 (stateOf (destroy2
        (stateOf (constructor2 ''A'' True 1 1000 Map.empty {})))))"
proof -
  have "closed (stateOf (destroy1 (stateOf (constructor1 ''A'' True 1 1000 None Map.empty {}))))"
    using destroy_closes[of "stateOf (constructor1 ''A'' True 1 1000 None Map.empty {})"]
    by (simp add: constructor1_state)
  moreover
  have "closed (stateOf (destroy2 (stateOf (constructor2 ''A'' True 1 1000 Map.empty {}))))"
    using destroy_closes[of "stateOf (constructor2 ''A'' True 1 1000 Map.empty {})"]
    by (simp add: constructor2_state)
  ultimately show ?thesis
    using destroy_closed_throws by blast
qed

section \<open>The claim handler\<close>

text \<open>
  C3. A \<open>claim_active\<close> message from another peer \<open>p\<close>, handled on an open channel, adds
  \<open>p\<close> to the peer set. An active manager becomes dormant when \<open>p\<close> is smaller than its own
  id, and otherwise stays active and posts \<open>claim_active\<close> with its own id; a dormant
  manager stays dormant and posts nothing. Both variants behave so.
\<close>

theorem handleActiveClaim_tiebreak:
  assumes "p \<noteq> instanceId s" and "\<not> closed s"
  shows "returned (handleActiveClaim1 now p s) \<and> returned (handleActiveClaim2 p s)
       \<and> p \<in> set (instances (stateOf (handleActiveClaim1 now p s)))
       \<and> p \<in> set (instances (stateOf (handleActiveClaim2 p s)))
       \<and> isActive (stateOf (handleActiveClaim1 now p s)) = (isActive s \<and> \<not> p < instanceId s)
       \<and> isActive (stateOf (handleActiveClaim2 p s)) = (isActive s \<and> \<not> p < instanceId s)
       \<and> posted (stateOf (handleActiveClaim1 now p s))
           = posted s @ (if isActive s \<and> \<not> p < instanceId s
                         then [ClaimActive (instanceId s)] else [])
       \<and> posted (stateOf (handleActiveClaim2 p s))
           = posted s @ (if isActive s \<and> \<not> p < instanceId s
                         then [ClaimActive (instanceId s)] else [])"
  using assms
  by (simp add: handleActiveClaim1_def handleActiveClaim2_def handler_defs Let_def)

theorem handleActiveClaim_tiebreak_witness:
  "''A'' \<noteq> instanceId (stateOf (requestElection_timeout2 (fresh ''B'' True None Map.empty {})))
   \<and> \<not> closed (stateOf (requestElection_timeout2 (fresh ''B'' True None Map.empty {})))
   \<and> \<not> isActive (stateOf (handleActiveClaim1 2000 ''A''
          (stateOf (requestElection_timeout2 (fresh ''B'' True None Map.empty {})))))
   \<and> \<not> isActive (stateOf (handleActiveClaim2 ''A''
          (stateOf (requestElection_timeout2 (fresh ''B'' True None Map.empty {})))))
   \<and> ''A'' \<in> set (instances (stateOf (handleActiveClaim2 ''A''
          (stateOf (requestElection_timeout2 (fresh ''B'' True None Map.empty {}))))))"
proof -
  have other: "''A'' \<noteq> instanceId (stateOf (requestElection_timeout2 (fresh ''B'' True None Map.empty {})))"
    by (simp add: requestElection_timeout2_def becomeActive2_def fresh_def handler_defs)
  have open_channel: "\<not> closed (stateOf (requestElection_timeout2 (fresh ''B'' True None Map.empty {})))"
    by (simp add: requestElection_timeout2_def becomeActive2_def fresh_def handler_defs)
  have smaller: "''A'' < instanceId (stateOf (requestElection_timeout2 (fresh ''B'' True None Map.empty {})))"
    by (simp add: requestElection_timeout2_def becomeActive2_def fresh_def handler_defs)
  note tiebreak = handleActiveClaim_tiebreak[OF other open_channel, of 2000]
  from tiebreak other open_channel smaller show ?thesis
    by blast
qed

text \<open>
  C10. For a \<open>claim_active\<close> message from another peer the claim handlers of the two
  variants end with the same \<open>isActive\<close> and have posted the same messages, so they reassert
  with \<open>claim_active\<close> under the same condition; one returns exactly when the other does.
\<close>

theorem handleActiveClaim_variants_agree:
  assumes "p \<noteq> instanceId s"
  shows "isActive (stateOf (handleActiveClaim1 now p s))
           = isActive (stateOf (handleActiveClaim2 p s))
       \<and> posted (stateOf (handleActiveClaim1 now p s))
           = posted (stateOf (handleActiveClaim2 p s))
       \<and> returned (handleActiveClaim1 now p s) = returned (handleActiveClaim2 p s)"
  using assms
  by (simp add: handleActiveClaim1_def handleActiveClaim2_def handler_defs Let_def)

theorem handleActiveClaim_variants_agree_witness:
  "''A'' \<noteq> instanceId (fresh ''B'' True None Map.empty {})
   \<and> isActive (stateOf (handleActiveClaim1 2000 ''A'' (fresh ''B'' True None Map.empty {})))
       = isActive (stateOf (handleActiveClaim2 ''A'' (fresh ''B'' True None Map.empty {})))
   \<and> posted (stateOf (handleActiveClaim1 2000 ''A'' (fresh ''B'' True None Map.empty {})))
       = posted (stateOf (handleActiveClaim2 ''A'' (fresh ''B'' True None Map.empty {})))
   \<and> returned (handleActiveClaim1 2000 ''A'' (fresh ''B'' True None Map.empty {}))
       = returned (handleActiveClaim2 ''A'' (fresh ''B'' True None Map.empty {}))"
proof -
  have other: "''A'' \<noteq> instanceId (fresh ''B'' True None Map.empty {})"
    by (simp add: fresh_def)
  from handleActiveClaim_variants_agree[OF other, of 2000] other show ?thesis
    by blast
qed

section \<open>Reordering of announce and claim\<close>

text \<open>
  C8. Let \<open>p\<close> be another peer and the channel open. Whether the second variant handles
  \<open>claim_active\<close> of \<open>p\<close> before or after \<open>announce\<close> of \<open>p\<close>, both handlers return, \<open>p\<close> is in
  the peer set (already after the claim alone), the peer sets are equal, and \<open>isActive\<close> is
  the same: the manager is active exactly if it was active and \<open>p\<close> is not smaller than
  its own id.
\<close>

theorem claim_before_announce:
  assumes "p \<noteq> instanceId s" and "\<not> closed s"
  shows "returned (andThen (handleActiveClaim2 p s) (handleAnnounce2 p))
       \<and> returned (andThen (handleAnnounce2 p s) (handleActiveClaim2 p))
       \<and> p \<in> set (instances (stateOf (handleActiveClaim2 p s)))
       \<and> p \<in> set (instances (stateOf (andThen (handleActiveClaim2 p s) (handleAnnounce2 p))))
       \<and> instances (stateOf (andThen (handleActiveClaim2 p s) (handleAnnounce2 p)))
           = instances (stateOf (andThen (handleAnnounce2 p s) (handleActiveClaim2 p)))
       \<and> isActive (stateOf (andThen (handleActiveClaim2 p s) (handleAnnounce2 p)))
           = isActive (stateOf (andThen (handleAnnounce2 p s) (handleActiveClaim2 p)))
       \<and> isActive (stateOf (andThen (handleActiveClaim2 p s) (handleAnnounce2 p)))
           = (isActive s \<and> \<not> p < instanceId s)"
  using assms
  by (simp add: handleActiveClaim2_def handleAnnounce2_def handler_defs Let_def)

theorem claim_before_announce_witness:
  "''B'' \<noteq> instanceId (stateOf (requestElection_timeout2 (fresh ''A'' True None Map.empty {})))
   \<and> \<not> closed (stateOf (requestElection_timeout2 (fresh ''A'' True None Map.empty {})))
   \<and> ''B'' \<in> set (instances (stateOf (andThen
         (handleActiveClaim2 ''B'' (stateOf (requestElection_timeout2 (fresh ''A'' True None Map.empty {}))))
         (handleAnnounce2 ''B''))))
   \<and> isActive (stateOf (andThen
         (handleActiveClaim2 ''B'' (stateOf (requestElection_timeout2 (fresh ''A'' True None Map.empty {}))))
         (handleAnnounce2 ''B'')))
   \<and> isActive (stateOf (andThen
         (handleAnnounce2 ''B'' (stateOf (requestElection_timeout2 (fresh ''A'' True None Map.empty {}))))
         (handleActiveClaim2 ''B'')))"
proof -
  have other: "''B'' \<noteq> instanceId (stateOf (requestElection_timeout2 (fresh ''A'' True None Map.empty {})))"
    by (simp add: requestElection_timeout2_def becomeActive2_def fresh_def handler_defs)
  have open_channel: "\<not> closed (stateOf (requestElection_timeout2 (fresh ''A'' True None Map.empty {})))"
    by (simp add: requestElection_timeout2_def becomeActive2_def fresh_def handler_defs)
  have active: "isActive (stateOf (requestElection_timeout2 (fresh ''A'' True None Map.empty {})))"
    by (simp add: requestElection_timeout2_def becomeActive2_def fresh_def handler_defs)
  have not_smaller: "\<not> ''B'' < instanceId (stateOf (requestElection_timeout2 (fresh ''A'' True None Map.empty {})))"
    by (simp add: requestElection_timeout2_def becomeActive2_def fresh_def handler_defs)
  note both_orders = claim_before_announce[OF other open_channel]
  from both_orders other open_channel active not_smaller show ?thesis
    by blast
qed

section \<open>The peer set excludes the manager itself\<close>

text \<open>
  C9. The peer set of a newly constructed manager does not hold the manager's own id, in
  either variant. If the peer set does not hold the own id and a message arrives whose
  \<open>instanceId\<close> is not the own id, then after \<open>onmessage\<close> of either variant (announce,
  request_election, claim_active, heartbeat, goodbye, instance_list) the own id is
  unchanged and still not in the peer set; this also holds when the handler throws.
\<close>

theorem selfExcluded_invariant:
  assumes "selfExcluded s" and "messageInstanceId m \<noteq> Some (instanceId s)"
  shows "selfExcluded (stateOf (onmessage1 now m s))
       \<and> instanceId (stateOf (onmessage1 now m s)) = instanceId s
       \<and> selfExcluded (stateOf (onmessage2 m s))
       \<and> instanceId (stateOf (onmessage2 m s)) = instanceId s
       \<and> selfExcluded (stateOf (constructor1 ident cb h now0 act ts tm))
       \<and> selfExcluded (stateOf (constructor2 ident cb h now0 ts tm))"
proof -
  have v1: "selfExcluded (stateOf (onmessage1 now m s))
          \<and> instanceId (stateOf (onmessage1 now m s)) = instanceId s"
    using assms
    by (cases m)
       (auto simp: selfExcluded_def handleAnnounce1_def handleActiveClaim1_def
          handleGoodbye1_def handleElectionRequest_def handleHeartbeat_def
          handleInstanceList_def broadcastInstanceList_def becomeActive1_def
          removeLastSeen_def setActiveInstance_def hasActiveInstance_def
          getActiveInstance_def handler_defs Let_def foldl_addListed_excludes_self)
  have v2: "selfExcluded (stateOf (onmessage2 m s))
          \<and> instanceId (stateOf (onmessage2 m s)) = instanceId s"
    using assms
    by (cases m)
       (auto simp: selfExcluded_def handleAnnounce2_def handleActiveClaim2_def
          handleGoodbye2_def becomeActive2_def removeHeartbeat_def handler_defs Let_def)
  have c1: "selfExcluded (stateOf (constructor1 ident cb h now0 act ts tm))"
    by (simp add: selfExcluded_def constructor1_state)
  have c2: "selfExcluded (stateOf (constructor2 ident cb h now0 ts tm))"
    by (simp add: selfExcluded_def constructor2_state)
  from v1 v2 c1 c2 show ?thesis by blast
qed

theorem selfExcluded_invariant_witness:
  "selfExcluded (fresh ''B'' True None Map.empty {})
   \<and> messageInstanceId (InstanceList [''A'', ''B'', ''C'']) \<noteq> Some (instanceId (fresh ''B'' True None Map.empty {}))
   \<and> selfExcluded (stateOf (onmessage1 2000 (InstanceList [''A'', ''B'', ''C'']) (fresh ''B'' True None Map.empty {})))
   \<and> selfExcluded (stateOf (onmessage2 (InstanceList [''A'', ''B'', ''C'']) (fresh ''B'' True None Map.empty {})))
   \<and> instances (stateOf (onmessage1 2000 (InstanceList [''A'', ''B'', ''C'']) (fresh ''B'' True None Map.empty {})))
       = [''A'', ''C'']"
proof -
  have inv: "selfExcluded (fresh ''B'' True None Map.empty {})"
    by (simp add: selfExcluded_def fresh_def)
  have other: "messageInstanceId (InstanceList [''A'', ''B'', ''C''])
                 \<noteq> Some (instanceId (fresh ''B'' True None Map.empty {}))"
    by simp
  have listed: "instances (stateOf (onmessage1 2000 (InstanceList [''A'', ''B'', ''C''])
                   (fresh ''B'' True None Map.empty {}))) = [''A'', ''C'']"
    by (simp add: handleInstanceList_def addListed_def fresh_def handler_defs)
  from selfExcluded_invariant[OF inv other, of 2000] inv other listed show ?thesis
    by blast
qed

section \<open>The liveness scan\<close>

text \<open>
  C5 (as amended). Let \<open>p\<close> be a tracked peer. The scan of the first variant
  (\<open>cleanupStaleInstances\<close>) removes \<open>p\<close> from the peer set exactly when \<open>p\<close> has a lastseen
  record with a non-zero timestamp older than 5000ms; a tracked peer without a record is
  kept. The scan of the second variant (\<open>checkForCrashedInstances\<close>) removes \<open>p\<close> exactly when
  \<open>p\<close> has no heartbeat record, or the record holds 0, or the record is older than 5000ms.
  In both variants the record of a removed peer is deleted and the record of a kept peer is
  left as it was.
\<close>

theorem scan_evicts:
  assumes "p \<in> set (instances s)"
  shows "(p \<notin> set (instances (stateOf (cleanupStaleInstances now s)))
            \<longleftrightarrow> staleRecord now (timestamps s p))
       \<and> timestamps (stateOf (cleanupStaleInstances now s)) p
           = (if staleRecord now (timestamps s p) then None else timestamps s p)
       \<and> (p \<notin> set (instances (stateOf (checkForCrashedInstances now s)))
            \<longleftrightarrow> crashedRecord now (timestamps s p))
       \<and> timestamps (stateOf (checkForCrashedInstances now s)) p
           = (if crashedRecord now (timestamps s p) then None else timestamps s p)
       \<and> staleRecord now (timestamps s p)
           = (\<exists>t. timestamps s p = Some t \<and> t \<noteq> 0 \<and> now - t > 5000)
       \<and> crashedRecord now (timestamps s p)
           = (timestamps s p = None \<or> timestamps s p = Some 0
              \<or> (\<exists>t. timestamps s p = Some t \<and> now - t > 5000))"
proof -
  have stale: "staleRecord now (timestamps s p)
                 = (\<exists>t. timestamps s p = Some t \<and> t \<noteq> 0 \<and> now - t > 5000)"
    by (simp add: staleRecord_def HEARTBEAT_TIMEOUT_def split: option.splits)
  have crashed: "crashedRecord now (timestamps s p)
                 = (timestamps s p = None \<or> timestamps s p = Some 0
                    \<or> (\<exists>t. timestamps s p = Some t \<and> now - t > 5000))"
    by (auto simp add: crashedRecord_def HEARTBEAT_TIMEOUT_def split: option.splits)
  show ?thesis
    using assms stale crashed
    by (simp add: cleanup_instances_all cleanup_timestamps_all check_instances check_timestamps)
qed

theorem scan_evicts_witness:
  "''A'' \<in> set (instances
      ((fresh ''C'' True None (Map.empty(''A'' \<mapsto> 1000)) {})\<lparr>instances := [''A'']\<rparr>))
 \<and> ''A'' \<notin> set (instances (stateOf (cleanupStaleInstances 7000
      ((fresh ''C'' True None (Map.empty(''A'' \<mapsto> 1000)) {})\<lparr>instances := [''A'']\<rparr>))))
 \<and> ''A'' \<notin> set (instances (stateOf (checkForCrashedInstances 7000
      ((fresh ''C'' True None (Map.empty(''A'' \<mapsto> 1000)) {})\<lparr>instances := [''A'']\<rparr>))))
 \<and> timestamps (stateOf (checkForCrashedInstances 7000
      ((fresh ''C'' True None (Map.empty(''A'' \<mapsto> 1000)) {})\<lparr>instances := [''A'']\<rparr>)))
      ''A'' = None"
proof -
  let ?s = "(fresh ''C'' True None (Map.empty(''A'' \<mapsto> 1000)) {})\<lparr>instances := [''A'']\<rparr>"
  have tracked: "''A'' \<in> set (instances ?s)"
    by (simp add: fresh_def)
  have ts: "timestamps ?s ''A'' = Some 1000"
    by (simp add: fresh_def)
  have stale: "staleRecord 7000 (timestamps ?s ''A'')"
    unfolding ts by (simp add: staleRecord_def HEARTBEAT_TIMEOUT_def)
  have crashed: "crashedRecord 7000 (timestamps ?s ''A'')"
    unfolding ts by (simp add: crashedRecord_def HEARTBEAT_TIMEOUT_def)
  note scan = scan_evicts[OF tracked, of 7000]
  from scan tracked stale crashed show ?thesis by presburger
qed

text \<open>
  A manager of the second variant that has handled \<open>announce\<close> of \<open>A\<close> tracks \<open>A\<close>; no
  heartbeat record of \<open>A\<close> exists, so no record age exceeds the threshold. The scan of the
  second variant removes \<open>A\<close> all the same, while the scan of the first variant, run on the
  same state, keeps it.
\<close>

theorem scan_evicts_counterexample:
  "timestamps (stateOf (handleAnnounce2 ''A''
      (stateOf (constructor2 ''C'' True 1 1000 Map.empty {})))) ''A'' = None
 \<and> ''A'' \<in> set (instances (stateOf (handleAnnounce2 ''A''
      (stateOf (constructor2 ''C'' True 1 1000 Map.empty {})))))
 \<and> ''A'' \<notin> set (instances (stateOf (checkForCrashedInstances 3000
      (stateOf (handleAnnounce2 ''A''
        (stateOf (constructor2 ''C'' True 1 1000 Map.empty {})))))))
 \<and> ''A'' \<in> set (instances (stateOf (cleanupStaleInstances 3000
      (stateOf (handleAnnounce2 ''A''
        (stateOf (constructor2 ''C'' True 1 1000 Map.empty {})))))))"
  by (simp add: check_instances cleanup_instances_all handleAnnounce2_state constructor2_state
      set_add_def crashedRecord_def staleRecord_def)

section \<open>Promotion by the liveness scan\<close>

subsection \<open>Promotion by the scan of the first variant\<close>

lemma cleanup_promotion:
  assumes "\<not> closed s"
    and "\<forall>a. activeInstance s = Some a \<longrightarrow>
           \<not> (a \<in> set (instances s) \<and> staleRecord now (timestamps s a))"
  shows "returned (cleanupStaleInstances now s)
       \<and> isActive (stateOf (cleanupStaleInstances now s)) = (isActive s \<or> staleOwner now s)
       \<and> posted (stateOf (cleanupStaleInstances now s))
           = posted s @ (if \<not> isActive s \<and> staleOwner now s
                         then [ClaimActive (instanceId s)] else [])"
  using cleanup_staleOwner[OF assms(2)] cleanup_fields[of now s False "instances s"] assms(1)
  by (simp add: cleanupStaleInstances_def Let_def becomeActive1_def setActiveInstance_def
      clearActiveInstance_def handler_defs)

text \<open>
  C6 (as amended). On an open channel, a scan of the second variant that evicts at least
  one peer makes the manager active and posts \<open>claim_active\<close> exactly when the manager is
  dormant and no tracked peer remains; otherwise \<open>isActive\<close> is unchanged and nothing is
  posted. Whether an evicted peer had the smaller id plays no part. The scan of the first
  variant, for an ActiveOwner entry that the scan does not itself evict, makes the manager
  active and posts \<open>claim_active\<close> exactly when the manager is dormant and the entry names
  another peer whose lastseen record is stale, whether or not a peer was evicted and
  whether or not tracked peers remain; otherwise \<open>isActive\<close> is unchanged and nothing is
  posted.
\<close>

theorem scan_promotion:
  assumes "\<not> closed s"
  shows "((\<exists>p \<in> set (instances s). crashedRecord now (timestamps s p)) \<longrightarrow>
            returned (checkForCrashedInstances now s)
          \<and> isActive (stateOf (checkForCrashedInstances now s))
              = (isActive s \<or> instances (stateOf (checkForCrashedInstances now s)) = [])
          \<and> posted (stateOf (checkForCrashedInstances now s))
              = posted s @ (if \<not> isActive s
                               \<and> instances (stateOf (checkForCrashedInstances now s)) = []
                            then [ClaimActive (instanceId s)] else []))
       \<and> ((\<forall>a. activeInstance s = Some a \<longrightarrow>
                \<not> (a \<in> set (instances s) \<and> staleRecord now (timestamps s a))) \<longrightarrow>
            returned (cleanupStaleInstances now s)
          \<and> isActive (stateOf (cleanupStaleInstances now s)) = (isActive s \<or> staleOwner now s)
          \<and> posted (stateOf (cleanupStaleInstances now s))
              = posted s @ (if \<not> isActive s \<and> staleOwner now s
                            then [ClaimActive (instanceId s)] else []))"
proof -
  have v2: "returned (checkForCrashedInstances now s)
          \<and> isActive (stateOf (checkForCrashedInstances now s))
              = (isActive s \<or> instances (stateOf (checkForCrashedInstances now s)) = [])
          \<and> posted (stateOf (checkForCrashedInstances now s))
              = posted s @ (if \<not> isActive s
                               \<and> instances (stateOf (checkForCrashedInstances now s)) = []
                            then [ClaimActive (instanceId s)] else [])"
    if evicted: "\<exists>p \<in> set (instances s). crashedRecord now (timestamps s p)"
  proof -
    let ?crashed = "filter (\<lambda>p. crashedRecord now (timestamps s p)) (instances s)"
    from evicted have ne: "?crashed \<noteq> []"
      by (simp add: filter_empty_conv)
    have inst: "instances (stateOf (checkForCrashedInstances now s))
                  = instances (foldl evict s ?crashed)"
      using ne
      by (simp add: checkForCrashedInstances_def getHeartbeat_def Let_def promote_notify_fields)
    show ?thesis
      unfolding inst using ne assms
      by (simp add: checkForCrashedInstances_def getHeartbeat_def Let_def becomeActive2_def
          handler_defs)
  qed
  have v1: "returned (cleanupStaleInstances now s)
          \<and> isActive (stateOf (cleanupStaleInstances now s)) = (isActive s \<or> staleOwner now s)
          \<and> posted (stateOf (cleanupStaleInstances now s))
              = posted s @ (if \<not> isActive s \<and> staleOwner now s
                            then [ClaimActive (instanceId s)] else [])"
    if owner: "\<forall>a. activeInstance s = Some a \<longrightarrow>
                 \<not> (a \<in> set (instances s) \<and> staleRecord now (timestamps s a))"
    using cleanup_promotion[OF assms owner] .
  from v1 v2 show ?thesis by blast
qed

text \<open>
  Second variant: a dormant manager \<open>C\<close> tracks only \<open>A\<close>, which has no heartbeat record;
  the scan evicts \<open>A\<close> and promotes \<open>C\<close>. First variant: a dormant manager \<open>C\<close> tracks \<open>B\<close>,
  whose lastseen record is stale, and the ActiveOwner entry names the untracked peer \<open>A\<close>,
  whose lastseen record is stale too; the scan evicts \<open>B\<close>, and \<open>C\<close> becomes active and
  posts its claim.
\<close>

theorem scan_promotion_witness:
  "\<not> closed (stateOf (handleAnnounce2 ''A''
        (stateOf (constructor2 ''C'' True 1 1000 Map.empty {}))))
 \<and> (\<exists>p \<in> set (instances (stateOf (handleAnnounce2 ''A''
        (stateOf (constructor2 ''C'' True 1 1000 Map.empty {}))))).
      crashedRecord 3000 (timestamps (stateOf (handleAnnounce2 ''A''
        (stateOf (constructor2 ''C'' True 1 1000 Map.empty {})))) p))
 \<and> isActive (stateOf (checkForCrashedInstances 3000 (stateOf (handleAnnounce2 ''A''
        (stateOf (constructor2 ''C'' True 1 1000 Map.empty {}))))))
 \<and> \<not> closed ((fresh ''C'' True (Some ''A'') (Map.empty(''A'' \<mapsto> 900, ''B'' \<mapsto> 1000)) {})
        \<lparr>instances := [''B'']\<rparr>)
 \<and> \<not> isActive ((fresh ''C'' True (Some ''A'') (Map.empty(''A'' \<mapsto> 900, ''B'' \<mapsto> 1000)) {})
        \<lparr>instances := [''B'']\<rparr>)
 \<and> activeInstance ((fresh ''C'' True (Some ''A'') (Map.empty(''A'' \<mapsto> 900, ''B'' \<mapsto> 1000)) {})
        \<lparr>instances := [''B'']\<rparr>) = Some ''A''
 \<and> ''A'' \<notin> set (instances
        ((fresh ''C'' True (Some ''A'') (Map.empty(''A'' \<mapsto> 900, ''B'' \<mapsto> 1000)) {})
        \<lparr>instances := [''B'']\<rparr>))
 \<and> staleOwner 7000 ((fresh ''C'' True (Some ''A'') (Map.empty(''A'' \<mapsto> 900, ''B'' \<mapsto> 1000)) {})
        \<lparr>instances := [''B'']\<rparr>)
 \<and> instances (stateOf (cleanupStaleInstances 7000
        ((fresh ''C'' True (Some ''A'') (Map.empty(''A'' \<mapsto> 900, ''B'' \<mapsto> 1000)) {})
        \<lparr>instances := [''B'']\<rparr>))) = []
 \<and> returned (cleanupStaleInstances 7000
        ((fresh ''C'' True (Some ''A'') (Map.empty(''A'' \<mapsto> 900, ''B'' \<mapsto> 1000)) {})
        \<lparr>instances := [''B'']\<rparr>))
 \<and> isActive (stateOf (cleanupStaleInstances 7000
        ((fresh ''C'' True (Some ''A'') (Map.empty(''A'' \<mapsto> 900, ''B'' \<mapsto> 1000)) {})
        \<lparr>instances := [''B'']\<rparr>)))
 \<and> posted (stateOf (cleanupStaleInstances 7000
        ((fresh ''C'' True (Some ''A'') (Map.empty(''A'' \<mapsto> 900, ''B'' \<mapsto> 1000)) {})
        \<lparr>instances := [''B'']\<rparr>))) = [ClaimActive ''C'']"
proof -
  let ?s = "stateOf (handleAnnounce2 ''A'' (stateOf (constructor2 ''C'' True 1 1000 Map.empty {})))"
  let ?u = "(fresh ''C'' True (Some ''A'') (Map.empty(''A'' \<mapsto> 900, ''B'' \<mapsto> 1000)) {})
        \<lparr>instances := [''B'']\<rparr>"
  have open_channel: "\<not> closed ?s"
    by (simp add: handleAnnounce2_state constructor2_state)
  have evicted: "\<exists>p \<in> set (instances ?s). crashedRecord 3000 (timestamps ?s p)"
    by (simp add: handleAnnounce2_state constructor2_state set_add_def crashedRecord_def)
  have dormant: "\<not> isActive ?s"
    by (simp add: handleAnnounce2_state constructor2_state)
  have none_left: "instances (stateOf (checkForCrashedInstances 3000 ?s)) = []"
    by (simp add: check_instances handleAnnounce2_state constructor2_state set_add_def
        crashedRecord_def)
  have u: "\<not> closed ?u" "\<not> isActive ?u" "activeInstance ?u = Some ''A''"
    "''A'' \<notin> set (instances ?u)" "posted ?u = []" "instanceId ?u = ''C''"
    by (simp_all add: fresh_def)
  have owner: "\<forall>a. activeInstance ?u = Some a \<longrightarrow>
                 \<not> (a \<in> set (instances ?u) \<and> staleRecord 7000 (timestamps ?u a))"
    using u(3,4) by simp
  have stale_owner: "staleOwner 7000 ?u"
    by (simp add: staleOwner_def getActiveInstance_def getLastSeen_def staleRecord_def
        HEARTBEAT_TIMEOUT_def fresh_def)
  have evicted_u: "instances (stateOf (cleanupStaleInstances 7000 ?u)) = []"
    by (simp add: cleanup_instances_all staleRecord_def HEARTBEAT_TIMEOUT_def fresh_def)
  note scan2 = scan_promotion[OF open_channel, of 3000]
  note scan1 = scan_promotion[OF u(1), of 7000]
  from scan2 evicted dormant none_left
  have v2: "isActive (stateOf (checkForCrashedInstances 3000 ?s))"
    by blast
  from scan1 owner
  have v1: "returned (cleanupStaleInstances 7000 ?u)
          \<and> isActive (stateOf (cleanupStaleInstances 7000 ?u)) = (isActive ?u \<or> staleOwner 7000 ?u)
          \<and> posted (stateOf (cleanupStaleInstances 7000 ?u))
              = posted ?u @ (if \<not> isActive ?u \<and> staleOwner 7000 ?u
                            then [ClaimActive (instanceId ?u)] else [])"
    by blast
  from v1 stale_owner u(2) have posted1:
    "posted (stateOf (cleanupStaleInstances 7000 ?u)) = [ClaimActive ''C'']"
    by (simp add: u(5,6))
  from v1 stale_owner have active1: "isActive (stateOf (cleanupStaleInstances 7000 ?u))"
    by blast
  from v1 have returned1: "returned (cleanupStaleInstances 7000 ?u)"
    by blast
  from open_channel evicted v2 u(1,2,3,4) stale_owner evicted_u returned1 active1 posted1
  show ?thesis by blast
qed

text \<open>
  Second variant: a dormant manager \<open>C\<close> tracks \<open>A\<close> and \<open>B\<close>; \<open>B\<close> has a fresh heartbeat
  record, \<open>A\<close> has none. \<open>A\<close> is smaller than \<open>C\<close>, which the \<open>goodbye\<close> handler takes as
  \<open>A\<close> having been the active peer, and \<open>goodbye\<close> of \<open>A\<close> would promote \<open>C\<close>. The scan
  evicts \<open>A\<close>, keeps \<open>B\<close>, and leaves \<open>C\<close> dormant without posting a claim.

  First variant, with an ActiveOwner entry naming the untracked peer \<open>A\<close>. While the
  lastseen record of \<open>A\<close> is fresh, a scan that evicts the only tracked peer \<open>B\<close> leaves the
  dormant manager \<open>C\<close> dormant, although no tracked peer remains. When the record of \<open>A\<close> is
  stale, a scan that evicts \<open>D\<close> and keeps \<open>B\<close> promotes \<open>C\<close>, although a tracked peer
  remains and the evicted peer is not the one the entry names.
\<close>

theorem scan_promotion_counterexample:
  "''A'' < instanceId (stateOf (handleAnnounce2 ''B'' (stateOf (handleAnnounce2 ''A''
      (stateOf (constructor2 ''C'' True 1 1000 (Map.empty(''B'' \<mapsto> 2900)) {}))))))
 \<and> instances (stateOf (handleAnnounce2 ''B'' (stateOf (handleAnnounce2 ''A''
      (stateOf (constructor2 ''C'' True 1 1000 (Map.empty(''B'' \<mapsto> 2900)) {}))))))
     = [''A'', ''B'']
 \<and> \<not> isActive (stateOf (handleAnnounce2 ''B'' (stateOf (handleAnnounce2 ''A''
      (stateOf (constructor2 ''C'' True 1 1000 (Map.empty(''B'' \<mapsto> 2900)) {}))))))
 \<and> isActive (stateOf (handleGoodbye2 ''A'' (stateOf (handleAnnounce2 ''B''
      (stateOf (handleAnnounce2 ''A''
        (stateOf (constructor2 ''C'' True 1 1000 (Map.empty(''B'' \<mapsto> 2900)) {}))))))))
 \<and> instances (stateOf (checkForCrashedInstances 3000 (stateOf (handleAnnounce2 ''B''
      (stateOf (handleAnnounce2 ''A''
        (stateOf (constructor2 ''C'' True 1 1000 (Map.empty(''B'' \<mapsto> 2900)) {}))))))))
     = [''B'']
 \<and> \<not> isActive (stateOf (checkForCrashedInstances 3000 (stateOf (handleAnnounce2 ''B''
      (stateOf (handleAnnounce2 ''A''
        (stateOf (constructor2 ''C'' True 1 1000 (Map.empty(''B'' \<mapsto> 2900)) {}))))))))
 \<and> posted (stateOf (checkForCrashedInstances 3000 (stateOf (handleAnnounce2 ''B''
      (stateOf (handleAnnounce2 ''A''
        (stateOf (constructor2 ''C'' True 1 1000 (Map.empty(''B'' \<mapsto> 2900)) {}))))))))
     = posted (stateOf (handleAnnounce2 ''B'' (stateOf (handleAnnounce2 ''A''
        (stateOf (constructor2 ''C'' True 1 1000 (Map.empty(''B'' \<mapsto> 2900)) {}))))))
 \<and> \<not> isActive ((fresh ''C'' True (Some ''A'') (Map.empty(''A'' \<mapsto> 6900, ''B'' \<mapsto> 1000)) {})
      \<lparr>instances := [''B'']\<rparr>)
 \<and> instances (stateOf (cleanupStaleInstances 7000
      ((fresh ''C'' True (Some ''A'') (Map.empty(''A'' \<mapsto> 6900, ''B'' \<mapsto> 1000)) {})
      \<lparr>instances := [''B'']\<rparr>))) = []
 \<and> \<not> isActive (stateOf (cleanupStaleInstances 7000
      ((fresh ''C'' True (Some ''A'') (Map.empty(''A'' \<mapsto> 6900, ''B'' \<mapsto> 1000)) {})
      \<lparr>instances := [''B'']\<rparr>)))
 \<and> posted (stateOf (cleanupStaleInstances 7000
      ((fresh ''C'' True (Some ''A'') (Map.empty(''A'' \<mapsto> 6900, ''B'' \<mapsto> 1000)) {})
      \<lparr>instances := [''B'']\<rparr>))) = []
 \<and> \<not> isActive
      ((fresh ''C'' True (Some ''A'')
          (Map.empty(''A'' \<mapsto> 900, ''B'' \<mapsto> 6900, ''D'' \<mapsto> 1000)) {})
      \<lparr>instances := [''B'', ''D'']\<rparr>)
 \<and> instances (stateOf (cleanupStaleInstances 7000
      ((fresh ''C'' True (Some ''A'')
          (Map.empty(''A'' \<mapsto> 900, ''B'' \<mapsto> 6900, ''D'' \<mapsto> 1000)) {})
      \<lparr>instances := [''B'', ''D'']\<rparr>))) = [''B'']
 \<and> isActive (stateOf (cleanupStaleInstances 7000
      ((fresh ''C'' True (Some ''A'')
          (Map.empty(''A'' \<mapsto> 900, ''B'' \<mapsto> 6900, ''D'' \<mapsto> 1000)) {})
      \<lparr>instances := [''B'', ''D'']\<rparr>)))
 \<and> posted (stateOf (cleanupStaleInstances 7000
      ((fresh ''C'' True (Some ''A'')
          (Map.empty(''A'' \<mapsto> 900, ''B'' \<mapsto> 6900, ''D'' \<mapsto> 1000)) {})
      \<lparr>instances := [''B'', ''D'']\<rparr>))) = [ClaimActive ''C'']"
proof -
  let ?s = "stateOf (handleAnnounce2 ''B'' (stateOf (handleAnnounce2 ''A''
      (stateOf (constructor2 ''C'' True 1 1000 (Map.empty(''B'' \<mapsto> 2900)) {})))))"
  let ?u = "(fresh ''C'' True (Some ''A'') (Map.empty(''A'' \<mapsto> 6900, ''B'' \<mapsto> 1000)) {})
      \<lparr>instances := [''B'']\<rparr>"
  let ?v = "(fresh ''C'' True (Some ''A'')
          (Map.empty(''A'' \<mapsto> 900, ''B'' \<mapsto> 6900, ''D'' \<mapsto> 1000)) {})
      \<lparr>instances := [''B'', ''D'']\<rparr>"
  have st: "instanceId ?s = ''C''" "instances ?s = [''A'', ''B'']" "\<not> isActive ?s"
    "\<not> closed ?s" "timestamps ?s = (Map.empty(''B'' \<mapsto> 2900))(''C'' \<mapsto> 1000)"
    by (simp_all add: handleAnnounce2_state constructor2_state set_add_def)
  have smaller: "''A'' < instanceId ?s"
    unfolding st by simp
  have goodbye: "isActive (stateOf (handleGoodbye2 ''A'' ?s))"
    using st
    by (simp add: handleGoodbye2_def becomeActive2_def removeHeartbeat_def handler_defs Let_def)
  have crashed: "filter (\<lambda>p. crashedRecord 3000 (timestamps ?s p)) (instances ?s) = [''A'']"
    unfolding st by (simp add: crashedRecord_def HEARTBEAT_TIMEOUT_def)
  have left: "instances (stateOf (checkForCrashedInstances 3000 ?s)) = [''B'']"
    unfolding check_instances st by (simp add: crashedRecord_def HEARTBEAT_TIMEOUT_def)
  have scan: "\<not> isActive (stateOf (checkForCrashedInstances 3000 ?s))
            \<and> posted (stateOf (checkForCrashedInstances 3000 ?s)) = posted ?s"
    using st(2,3) crashed
    by (simp add: checkForCrashedInstances_def getHeartbeat_def Let_def handler_defs evict_def
        removeHeartbeat_def)
  have u: "\<not> closed ?u" "\<not> isActive ?u" "posted ?u = []"
    by (simp_all add: fresh_def)
  have owner_u: "\<forall>a. activeInstance ?u = Some a \<longrightarrow>
                 \<not> (a \<in> set (instances ?u) \<and> staleRecord 7000 (timestamps ?u a))"
    by (simp add: fresh_def)
  have fresh_owner: "\<not> staleOwner 7000 ?u"
    by (simp add: staleOwner_def getActiveInstance_def getLastSeen_def staleRecord_def
        HEARTBEAT_TIMEOUT_def fresh_def)
  have left_u: "instances (stateOf (cleanupStaleInstances 7000 ?u)) = []"
    by (simp add: cleanup_instances_all staleRecord_def HEARTBEAT_TIMEOUT_def fresh_def)
  have scan_u: "\<not> isActive (stateOf (cleanupStaleInstances 7000 ?u))
              \<and> posted (stateOf (cleanupStaleInstances 7000 ?u)) = []"
    using cleanup_promotion[OF u(1) owner_u] fresh_owner u(2,3) by simp
  have v: "\<not> closed ?v" "\<not> isActive ?v" "posted ?v = []" "instanceId ?v = ''C''"
    by (simp_all add: fresh_def)
  have owner_v: "\<forall>a. activeInstance ?v = Some a \<longrightarrow>
                 \<not> (a \<in> set (instances ?v) \<and> staleRecord 7000 (timestamps ?v a))"
    by (simp add: fresh_def)
  have stale_owner: "staleOwner 7000 ?v"
    by (simp add: staleOwner_def getActiveInstance_def getLastSeen_def staleRecord_def
        HEARTBEAT_TIMEOUT_def fresh_def)
  have left_v: "instances (stateOf (cleanupStaleInstances 7000 ?v)) = [''B'']"
    by (simp add: cleanup_instances_all staleRecord_def HEARTBEAT_TIMEOUT_def fresh_def)
  have scan_v: "isActive (stateOf (cleanupStaleInstances 7000 ?v))
              \<and> posted (stateOf (cleanupStaleInstances 7000 ?v)) = [ClaimActive ''C'']"
    using cleanup_promotion[OF v(1) owner_v] stale_owner v(2,3,4) by simp
  from smaller st(2,3) goodbye left scan u(2) left_u scan_u v(2) left_v scan_v show ?thesis
    by blast
qed

section \<open>Notifications\<close>

text \<open>
  C7 (as amended). Let a consumer callback be registered, the channel open and \<open>p\<close> another
  peer. In the second variant every handled \<open>announce\<close>, \<open>claim_active\<close> and \<open>goodbye\<close>,
  every scan that evicts a peer and every promotion at the end of the grace window invokes
  the callback once or twice, each time with the \<open>isActive\<close> flag and the peer count that the
  handler ends with. It is invoked once for \<open>announce\<close>, for a claim that an active manager
  rejects, for a \<open>goodbye\<close> or an evicting scan that does not promote, and for the promotion
  at the end of the grace window; it is invoked twice for a claim that leaves the manager
  dormant and for a \<open>goodbye\<close> or an evicting scan that promotes. A scan that evicts nobody
  and a grace window ending on an active manager do not invoke it.
\<close>

theorem notifications_per_transition:
  assumes "stateCallback s" and "\<not> closed s" and "p \<noteq> instanceId s"
  shows "notified (stateOf (handleAnnounce2 p s))
           = notified s @ [getState (stateOf (handleAnnounce2 p s))]
       \<and> notified (stateOf (handleActiveClaim2 p s))
           = notified s @ replicate (if isActive s \<and> \<not> p < instanceId s then 1 else 2)
                            (getState (stateOf (handleActiveClaim2 p s)))
       \<and> notified (stateOf (handleGoodbye2 p s))
           = notified s @ replicate
               (if \<not> isActive s \<and> (p < instanceId s \<or> length (instances s) = 1) then 2 else 1)
               (getState (stateOf (handleGoodbye2 p s)))
       \<and> notified (stateOf (checkForCrashedInstances now s))
           = notified s @ replicate
               (if (\<exists>q \<in> set (instances s). crashedRecord now (timestamps s q))
                then (if \<not> isActive s
                         \<and> instances (stateOf (checkForCrashedInstances now s)) = []
                      then 2 else 1)
                else 0)
               (getState (stateOf (checkForCrashedInstances now s)))
       \<and> notified (stateOf (requestElection_timeout2 s))
           = notified s @ replicate (if isActive s then 0 else 1)
                            (getState (stateOf (requestElection_timeout2 s)))"
proof -
  have announce: "notified (stateOf (handleAnnounce2 p s))
           = notified s @ [getState (stateOf (handleAnnounce2 p s))]"
    using assms by (simp add: handleAnnounce2_def handler_defs Let_def)
  have claim: "notified (stateOf (handleActiveClaim2 p s))
           = notified s @ replicate (if isActive s \<and> \<not> p < instanceId s then 1 else 2)
                            (getState (stateOf (handleActiveClaim2 p s)))"
    using assms by (simp add: handleActiveClaim2_def handler_defs Let_def numeral_2_eq_2)
  have goodbye: "notified (stateOf (handleGoodbye2 p s))
           = notified s @ replicate
               (if \<not> isActive s \<and> (p < instanceId s \<or> length (instances s) = 1) then 2 else 1)
               (getState (stateOf (handleGoodbye2 p s)))"
    using assms
    by (simp add: handleGoodbye2_def becomeActive2_def removeHeartbeat_def handler_defs Let_def
        numeral_2_eq_2)
  have scan: "notified (stateOf (checkForCrashedInstances now s))
           = notified s @ replicate
               (if (\<exists>q \<in> set (instances s). crashedRecord now (timestamps s q))
                then (if \<not> isActive s
                         \<and> instances (stateOf (checkForCrashedInstances now s)) = []
                      then 2 else 1)
                else 0)
               (getState (stateOf (checkForCrashedInstances now s)))"
  proof (cases "\<exists>q \<in> set (instances s). crashedRecord now (timestamps s q)")
    case False
    then have "filter (\<lambda>p. crashedRecord now (timestamps s p)) (instances s) = []"
      by (simp add: filter_empty_conv)
    with False show ?thesis
      by (simp add: checkForCrashedInstances_def getHeartbeat_def)
  next
    case True
    let ?crashed = "filter (\<lambda>p. crashedRecord now (timestamps s p)) (instances s)"
    from True have ne: "?crashed \<noteq> []"
      by (simp add: filter_empty_conv)
    have inst: "instances (stateOf (checkForCrashedInstances now s))
                  = instances (foldl evict s ?crashed)"
      using ne
      by (simp add: checkForCrashedInstances_def getHeartbeat_def Let_def promote_notify_fields)
    show ?thesis
      unfolding inst using ne True assms
      by (simp add: checkForCrashedInstances_def getHeartbeat_def Let_def becomeActive2_def
          handler_defs numeral_2_eq_2)
  qed
  have timeout: "notified (stateOf (requestElection_timeout2 s))
           = notified s @ replicate (if isActive s then 0 else 1)
                            (getState (stateOf (requestElection_timeout2 s)))"
    using assms by (simp add: requestElection_timeout2_def becomeActive2_def handler_defs)
  from announce claim goodbye scan timeout show ?thesis by blast
qed

theorem notifications_per_transition_witness:
  "stateCallback (stateOf (constructor2 ''B'' True 1 1000 Map.empty {}))
 \<and> \<not> closed (stateOf (constructor2 ''B'' True 1 1000 Map.empty {}))
 \<and> ''A'' \<noteq> instanceId (stateOf (constructor2 ''B'' True 1 1000 Map.empty {}))
 \<and> notified (stateOf (handleAnnounce2 ''A'' (stateOf (constructor2 ''B'' True 1 1000 Map.empty {}))))
     = notified (stateOf (constructor2 ''B'' True 1 1000 Map.empty {}))
       @ [getState (stateOf (handleAnnounce2 ''A''
            (stateOf (constructor2 ''B'' True 1 1000 Map.empty {}))))]
 \<and> notified (stateOf (requestElection_timeout2
        (stateOf (constructor2 ''B'' True 1 1000 Map.empty {}))))
     = notified (stateOf (constructor2 ''B'' True 1 1000 Map.empty {}))
       @ [getState (stateOf (requestElection_timeout2
            (stateOf (constructor2 ''B'' True 1 1000 Map.empty {}))))]"
proof -
  let ?s = "stateOf (constructor2 ''B'' True 1 1000 Map.empty {})"
  have cb: "stateCallback ?s"
    by (simp add: constructor2_state)
  have open_channel: "\<not> closed ?s"
    by (simp add: constructor2_state)
  have other: "''A'' \<noteq> instanceId ?s"
    by (simp add: constructor2_state)
  have dormant: "\<not> isActive ?s"
    by (simp add: constructor2_state)
  note counts = notifications_per_transition[OF cb open_channel other, of 3000]
  from counts cb open_channel other dormant show ?thesis
    by simp
qed

text \<open>
  A dormant manager \<open>B\<close> with a callback handles one \<open>claim_active\<close> of \<open>A\<close>: the callback is
  invoked twice, with the same snapshot.
\<close>

theorem notifications_counterexample:
  "stateCallback (stateOf (constructor2 ''B'' True 1 1000 Map.empty {}))
 \<and> notified (stateOf (constructor2 ''B'' True 1 1000 Map.empty {})) = []
 \<and> notified (stateOf (handleActiveClaim2 ''A''
      (stateOf (constructor2 ''B'' True 1 1000 Map.empty {}))))
     = [InstanceState False 1, InstanceState False 1]"
  by (simp add: constructor2_state handleActiveClaim2_def handler_defs Let_def)

section \<open>The end of the grace window\<close>

text \<open>
  C2 (evaluation of the second variant). A dormant manager \<open>B\<close> handles \<open>claim_active\<close> of \<open>A\<close>
  during its grace window and stays dormant, with \<open>A\<close> in its peer set. At the end of the
  grace window it becomes active and posts \<open>claim_active\<close> with its own id, although a claim
  was observed: the callback of \<open>requestElection\<close> tests only \<open>isActive\<close>.
\<close>

theorem grace_window_ignores_observed_claim:
  "\<not> isActive (stateOf (handleActiveClaim2 ''A''
      (stateOf (constructor2 ''B'' True 1 1000 Map.empty {}))))
 \<and> ''A'' \<in> set (instances (stateOf (handleActiveClaim2 ''A''
      (stateOf (constructor2 ''B'' True 1 1000 Map.empty {})))))
 \<and> isActive (stateOf (requestElection_timeout2 (stateOf (handleActiveClaim2 ''A''
      (stateOf (constructor2 ''B'' True 1 1000 Map.empty {}))))))
 \<and> posted (stateOf (requestElection_timeout2 (stateOf (handleActiveClaim2 ''A''
      (stateOf (constructor2 ''B'' True 1 1000 Map.empty {}))))))
     = [Announce ''B'', ClaimActive ''B'']"
  by (simp add: constructor2_state requestElection_timeout2_def becomeActive2_def
      handleActiveClaim2_def handler_defs Let_def)

section \<open>Convergence of two managers\<close>

subsection \<open>Effects of the election handlers\<close>

lemma timeout_effect:
  assumes "\<not> closed s"
  shows "instanceId (stateOf (requestElection_timeout2 s)) = instanceId s"
    "closed (stateOf (requestElection_timeout2 s)) = False"
    "isActive (stateOf (requestElection_timeout2 s)) = True"
    "newPosts s (stateOf (requestElection_timeout2 s))
       = (if isActive s then [] else [ClaimActive (instanceId s)])"
  using assms
  by (simp_all add: requestElection_timeout2_def becomeActive2_def newPosts_def andThen_def postMessage_def
      broadcastActiveClaim_def notifyStateChange_def)

lemma announce_effect:
  assumes "\<not> closed s" and "p \<noteq> instanceId s"
  shows "instanceId (stateOf (onmessage2 (Announce p) s)) = instanceId s"
    "closed (stateOf (onmessage2 (Announce p) s)) = False"
    "isActive (stateOf (onmessage2 (Announce p) s)) = isActive s"
    "newPosts s (stateOf (onmessage2 (Announce p) s))
       = (if isActive s then [ClaimActive (instanceId s)] else [])"
  using assms
  by (simp_all add: handleAnnounce2_def newPosts_def andThen_def postMessage_def
      broadcastActiveClaim_def notifyStateChange_def Let_def)

lemma claim_effect:
  assumes "\<not> closed s" and "p \<noteq> instanceId s"
  shows "instanceId (stateOf (onmessage2 (ClaimActive p) s)) = instanceId s"
    "closed (stateOf (onmessage2 (ClaimActive p) s)) = False"
    "isActive (stateOf (onmessage2 (ClaimActive p) s)) = (isActive s \<and> \<not> p < instanceId s)"
    "newPosts s (stateOf (onmessage2 (ClaimActive p) s))
       = (if isActive s \<and> \<not> p < instanceId s then [ClaimActive (instanceId s)] else [])"
  using assms
  by (simp_all add: handleActiveClaim2_def newPosts_def andThen_def postMessage_def becomeDormant_def
      broadcastActiveClaim_def notifyStateChange_def Let_def)

lemma takeOut_subset: "set (takeOut i ms) \<subseteq> set ms"
  by (induction i ms rule: takeOut.induct) (auto split: nat.splits)

lemma takeOut_keeps:
  "m \<in> set ms \<Longrightarrow> i < length ms \<Longrightarrow> ms ! i \<noteq> m \<Longrightarrow> m \<in> set (takeOut i ms)"
  by (induction i ms rule: takeOut.induct) (auto split: nat.splits)

lemma sum_takeOut:
  fixes f :: "message \<Rightarrow> nat"
  shows "i < length ms \<Longrightarrow> sum_list (map f (takeOut i ms)) + f (ms ! i) = sum_list (map f ms)"
  by (induction i ms rule: takeOut.induct) (auto split: nat.splits)

lemma deliver_effect:
  assumes "\<not> closed s" and "q \<noteq> instanceId s" and "m = Announce q \<or> m = ClaimActive q"
  shows "instanceId (stateOf (onmessage2 m s)) = instanceId s"
    "\<not> closed (stateOf (onmessage2 m s))"
    "isActive (stateOf (onmessage2 m s))
       = (isActive s \<and> (m = ClaimActive q \<longrightarrow> \<not> q < instanceId s))"
    "newPosts s (stateOf (onmessage2 m s))
       = (if isActive s \<and> (m = ClaimActive q \<longrightarrow> \<not> q < instanceId s)
          then [ClaimActive (instanceId s)] else [])"
  using assms announce_effect[of s q] claim_effect[of s q] by auto

lemma election_invI:
  assumes "instanceId (peerA c) = idA" and "instanceId (peerB c) = idB"
    and "\<not> closed (peerA c)" and "\<not> closed (peerB c)"
    and "set (inboxA c) \<subseteq> {Announce idB, ClaimActive idB}"
    and "set (inboxB c) \<subseteq> {Announce idA, ClaimActive idA}"
    and "isActive (peerA c) = (\<not> timerA c)"
    and "isActive (peerB c) \<Longrightarrow>
           ClaimActive idA \<in> set (inboxB c) \<or> timerA c \<or> ClaimActive idB \<in> set (inboxA c)"
  shows "election_inv idA idB c"
  using assms unfolding election_inv_def by blast

lemma election_invD:
  assumes "election_inv idA idB c"
  shows "instanceId (peerA c) = idA" and "instanceId (peerB c) = idB"
    and "\<not> closed (peerA c)" and "\<not> closed (peerB c)"
    and "set (inboxA c) \<subseteq> {Announce idB, ClaimActive idB}"
    and "set (inboxB c) \<subseteq> {Announce idA, ClaimActive idA}"
    and "isActive (peerA c) = (\<not> timerA c)"
    and "isActive (peerB c) \<Longrightarrow>
           ClaimActive idA \<in> set (inboxB c) \<or> timerA c \<or> ClaimActive idB \<in> set (inboxA c)"
  using assms unfolding election_inv_def by blast+

lemma fire_timeoutA:
  assumes "idA < idB" and "election_inv idA idB c" and "fire TimeoutA c = Some c'"
  shows "election_inv idA idB c' \<and> weight c' < weight c"
proof -
  note inv = election_invD[OF assms(2)]
  from assms(3) have t: "timerA c" by (simp split: if_splits)
  with inv(7) have dormant: "\<not> isActive (peerA c)" by simp
  note eff = timeout_effect[OF inv(3)]
  have "fire TimeoutA c = Some (c\<lparr>peerA := stateOf (requestElection_timeout2 (peerA c)),
      timerA := False, inboxB := inboxB c @ [ClaimActive idA]\<rparr>)"
    using t by (simp add: Let_def eff(4) dormant inv(1))
  with assms(3) have c': "c' = c\<lparr>peerA := stateOf (requestElection_timeout2 (peerA c)),
      timerA := False, inboxB := inboxB c @ [ClaimActive idA]\<rparr>"
    by simp
  have fields: "peerA c' = stateOf (requestElection_timeout2 (peerA c))" "peerB c' = peerB c"
    "inboxA c' = inboxA c" "inboxB c' = inboxB c @ [ClaimActive idA]"
    "timerA c' = False" "timerB c' = timerB c"
    by (simp_all add: c')
  have "election_inv idA idB c'"
  proof (rule election_invI)
    show "instanceId (peerA c') = idA" by (simp add: fields eff(1) inv(1))
    show "instanceId (peerB c') = idB" by (simp add: fields inv(2))
    show "\<not> closed (peerA c')" by (simp add: fields eff(2))
    show "\<not> closed (peerB c')" by (simp add: fields inv(4))
    show "set (inboxA c') \<subseteq> {Announce idB, ClaimActive idB}" by (simp add: fields inv(5))
    show "set (inboxB c') \<subseteq> {Announce idA, ClaimActive idA}" using inv(6) by (simp add: fields)
    show "isActive (peerA c') = (\<not> timerA c')" by (simp add: fields eff(3))
    show "ClaimActive idA \<in> set (inboxB c') \<or> timerA c' \<or> ClaimActive idB \<in> set (inboxA c')"
      by (simp add: fields)
  qed
  moreover have "weight c' < weight c"
    using t by (simp add: weight_def fields)
  ultimately show ?thesis by blast
qed

lemma fire_timeoutB:
  assumes "idA < idB" and "election_inv idA idB c" and "fire TimeoutB c = Some c'"
  shows "election_inv idA idB c' \<and> weight c' < weight c"
proof -
  note inv = election_invD[OF assms(2)]
  from assms(3) have t: "timerB c" by (simp split: if_splits)
  note eff = timeout_effect[OF inv(4)]
  let ?new = "if isActive (peerB c) then [] else [ClaimActive idB]"
  have "fire TimeoutB c = Some (c\<lparr>peerB := stateOf (requestElection_timeout2 (peerB c)),
      timerB := False, inboxA := inboxA c @ ?new\<rparr>)"
    using t by (simp add: Let_def eff(4) inv(2))
  with assms(3) have c': "c' = c\<lparr>peerB := stateOf (requestElection_timeout2 (peerB c)),
      timerB := False, inboxA := inboxA c @ ?new\<rparr>"
    by simp
  have fields: "peerB c' = stateOf (requestElection_timeout2 (peerB c))" "peerA c' = peerA c"
    "inboxB c' = inboxB c" "inboxA c' = inboxA c @ ?new"
    "timerB c' = False" "timerA c' = timerA c"
    by (simp_all add: c')
  have "election_inv idA idB c'"
  proof (rule election_invI)
    show "instanceId (peerA c') = idA" by (simp add: fields inv(1))
    show "instanceId (peerB c') = idB" by (simp add: fields eff(1) inv(2))
    show "\<not> closed (peerA c')" by (simp add: fields inv(3))
    show "\<not> closed (peerB c')" by (simp add: fields eff(2))
    show "set (inboxA c') \<subseteq> {Announce idB, ClaimActive idB}" using inv(5) by (simp add: fields)
    show "set (inboxB c') \<subseteq> {Announce idA, ClaimActive idA}" by (simp add: fields inv(6))
    show "isActive (peerA c') = (\<not> timerA c')" by (simp add: fields inv(7))
    show "ClaimActive idA \<in> set (inboxB c') \<or> timerA c' \<or> ClaimActive idB \<in> set (inboxA c')"
      using inv(8) by (cases "isActive (peerB c)") (auto simp add: fields)
  qed
  moreover have "weight c' < weight c"
    using t by (simp add: weight_def fields)
  ultimately show ?thesis by blast
qed

lemma fire_deliverA:
  assumes "idA < idB" and "election_inv idA idB c" and "fire (DeliverA i) c = Some c'"
  shows "election_inv idA idB c' \<and> weight c' < weight c"
proof -
  note inv = election_invD[OF assms(2)]
  let ?m = "inboxA c ! i"
  let ?a = "stateOf (onmessage2 ?m (peerA c))"
  let ?new = "if isActive (peerA c) then [ClaimActive idA] else []"
  from assms(3) have i: "i < length (inboxA c)" by (simp split: if_splits)
  from assms(1) have ne: "idB \<noteq> instanceId (peerA c)" and nless: "\<not> idB < idA"
    using inv(1) by auto
  from i inv(5) have m: "?m = Announce idB \<or> ?m = ClaimActive idB"
    using nth_mem by blast
  note eff = deliver_effect[OF inv(3) ne m]
  have active: "isActive ?a = isActive (peerA c)"
    using eff(3) nless inv(1) by simp
  have new: "newPosts (peerA c) ?a = ?new"
    using eff(4) nless inv(1) by simp
  have "fire (DeliverA i) c = Some (c\<lparr>peerA := ?a, inboxA := takeOut i (inboxA c),
      inboxB := inboxB c @ ?new\<rparr>)"
    using i by (simp add: Let_def new)
  with assms(3) have c': "c' = c\<lparr>peerA := ?a, inboxA := takeOut i (inboxA c),
      inboxB := inboxB c @ ?new\<rparr>"
    by simp
  have fields: "peerA c' = ?a" "peerB c' = peerB c"
    "inboxA c' = takeOut i (inboxA c)" "inboxB c' = inboxB c @ ?new"
    "timerA c' = timerA c" "timerB c' = timerB c"
    by (simp_all add: c')
  have sub: "set (takeOut i (inboxA c)) \<subseteq> {Announce idB, ClaimActive idB}"
    by (rule subset_trans[OF takeOut_subset inv(5)])
  have w: "sum_list (map weightA (takeOut i (inboxA c))) + 2 = sum_list (map weightA (inboxA c))"
    using sum_takeOut[OF i, of weightA] by simp
  have "election_inv idA idB c'"
  proof (rule election_invI)
    show "instanceId (peerA c') = idA" by (simp add: fields eff(1) inv(1))
    show "instanceId (peerB c') = idB" by (simp add: fields inv(2))
    show "\<not> closed (peerA c')" by (simp add: fields eff(2))
    show "\<not> closed (peerB c')" by (simp add: fields inv(4))
    show "set (inboxA c') \<subseteq> {Announce idB, ClaimActive idB}" by (simp add: fields sub)
    show "set (inboxB c') \<subseteq> {Announce idA, ClaimActive idA}" using inv(6) by (auto simp add: fields)
    show "isActive (peerA c') = (\<not> timerA c')" by (simp add: fields active inv(7))
    show "ClaimActive idA \<in> set (inboxB c') \<or> timerA c' \<or> ClaimActive idB \<in> set (inboxA c')"
      if b: "isActive (peerB c')"
    proof (cases "isActive (peerA c)")
      case True
      then show ?thesis by (simp add: fields)
    next
      case False
      with inv(7) have "timerA c" by simp
      then show ?thesis by (simp add: fields)
    qed
  qed
  moreover have "weight c' < weight c"
    using w by (simp add: weight_def fields)
  ultimately show ?thesis by blast
qed

lemma fire_deliverB:
  assumes "idA < idB" and "election_inv idA idB c" and "fire (DeliverB i) c = Some c'"
  shows "election_inv idA idB c' \<and> weight c' < weight c"
proof -
  note inv = election_invD[OF assms(2)]
  let ?m = "inboxB c ! i"
  let ?b = "stateOf (onmessage2 ?m (peerB c))"
  let ?new = "if isActive (peerB c) \<and> ?m = Announce idA then [ClaimActive idB] else []"
  from assms(3) have i: "i < length (inboxB c)" by (simp split: if_splits)
  from assms(1) have ne: "idA \<noteq> instanceId (peerB c)"
    using inv(2) by auto
  from i inv(6) have m: "?m = Announce idA \<or> ?m = ClaimActive idA"
    using nth_mem by blast
  note eff = deliver_effect[OF inv(4) ne m]
  have active: "isActive ?b = (isActive (peerB c) \<and> ?m = Announce idA)"
    using eff(3) assms(1) inv(2) m by auto
  have new: "newPosts (peerB c) ?b = ?new"
    using eff(4) assms(1) inv(2) m by auto
  have "fire (DeliverB i) c = Some (c\<lparr>peerB := ?b, inboxB := takeOut i (inboxB c),
      inboxA := inboxA c @ ?new\<rparr>)"
    using i by (simp add: Let_def new)
  with assms(3) have c': "c' = c\<lparr>peerB := ?b, inboxB := takeOut i (inboxB c),
      inboxA := inboxA c @ ?new\<rparr>"
    by simp
  have fields: "peerB c' = ?b" "peerA c' = peerA c"
    "inboxB c' = takeOut i (inboxB c)" "inboxA c' = inboxA c @ ?new"
    "timerA c' = timerA c" "timerB c' = timerB c"
    by (simp_all add: c')
  have sub: "set (takeOut i (inboxB c)) \<subseteq> {Announce idA, ClaimActive idA}"
    by (rule subset_trans[OF takeOut_subset inv(6)])
  have w: "sum_list (map weightB (takeOut i (inboxB c))) + weightB ?m
             = sum_list (map weightB (inboxB c))"
    using sum_takeOut[OF i, of weightB] by simp
  have "election_inv idA idB c'"
  proof (rule election_invI)
    show "instanceId (peerA c') = idA" by (simp add: fields inv(1))
    show "instanceId (peerB c') = idB" by (simp add: fields eff(1) inv(2))
    show "\<not> closed (peerA c')" by (simp add: fields inv(3))
    show "\<not> closed (peerB c')" by (simp add: fields eff(2))
    show "set (inboxA c') \<subseteq> {Announce idB, ClaimActive idB}" using inv(5) by (auto simp add: fields)
    show "set (inboxB c') \<subseteq> {Announce idA, ClaimActive idA}" by (simp add: fields sub)
    show "isActive (peerA c') = (\<not> timerA c')" by (simp add: fields inv(7))
    show "ClaimActive idA \<in> set (inboxB c') \<or> timerA c' \<or> ClaimActive idB \<in> set (inboxA c')"
      if b: "isActive (peerB c')"
    proof -
      from b have "isActive (peerB c)" and "?m = Announce idA"
        by (simp_all add: fields active)
      then show ?thesis by (simp add: fields)
    qed
  qed
  moreover have "weight c' < weight c"
  proof (cases "?m = Announce idA")
    case True
    with w show ?thesis by (simp add: weight_def fields)
  next
    case False
    with m have "?m = ClaimActive idA" by simp
    with w show ?thesis by (simp add: weight_def fields)
  qed
  ultimately show ?thesis by blast
qed

lemma fire_step:
  assumes "idA < idB" and "election_inv idA idB c" and "fire e c = Some c'"
  shows "election_inv idA idB c' \<and> weight c' < weight c"
  using assms fire_timeoutA fire_timeoutB fire_deliverA fire_deliverB
  by (cases e) blast+

lemma run_inv:
  assumes "idA < idB"
  shows "election_inv idA idB c \<Longrightarrow> run es c = Some c'
         \<Longrightarrow> election_inv idA idB c' \<and> length es + weight c' \<le> weight c"
proof (induction es arbitrary: c)
  case Nil
  then show ?case by simp
next
  case (Cons e es)
  from Cons.prems(2) obtain c1 where c1: "fire e c = Some c1" and rest: "run es c1 = Some c'"
    by (auto split: option.splits)
  from fire_step[OF assms Cons.prems(1) c1] have "election_inv idA idB c1" "weight c1 < weight c"
    by blast+
  with Cons.IH[OF _ rest] show ?case by auto
qed

lemma start_inv:
  "election_inv idA idB (start idA idB cbA cbB heardA heardB)
 \<and> weight (start idA idB cbA cbB heardA heardB) \<le> 10"
  by (simp add: election_inv_def weight_def start_def constructor2_def announcePresence_def postMessage_def andThen_def fresh_def
      startHeartbeat2_def writeHeartbeat_def)

lemma progress:
  "\<not> converged c \<Longrightarrow> \<exists>e c'. fire e c = Some c'"
proof -
  assume "\<not> converged c"
  then consider "timerA c" | "timerB c" | "inboxA c \<noteq> []" | "inboxB c \<noteq> []"
    by (auto simp: converged_def)
  then show ?thesis
  proof cases
    case 1 then have "fire TimeoutA c \<noteq> None" by (simp add: Let_def) then show ?thesis by blast
  next
    case 2 then have "fire TimeoutB c \<noteq> None" by (simp add: Let_def) then show ?thesis by blast
  next
    case 3 then have "fire (DeliverA 0) c \<noteq> None" by (simp add: Let_def) then show ?thesis by blast
  next
    case 4 then have "fire (DeliverB 0) c \<noteq> None" by (simp add: Let_def) then show ?thesis by blast
  qed
qed

text \<open>
  C4. Two managers of the second variant with ids \<open>idA < idB\<close> are constructed in either
  order, so that each may or may not have heard the announce of the other, and then the two
  grace-window timeouts and the deliveries of all posted messages happen in any order.
  Every such run has at most 10 events; as long as a timeout or a message is pending, an
  event can happen; and once nothing is pending, the manager with the smaller id is active
  and the other is dormant. So every run that is continued to its end is finite and ends
  with \<open>A\<close> active and \<open>B\<close> dormant, whichever manager claims first.
\<close>

theorem two_peers_converge:
  assumes "idA < idB" and "run es (start idA idB cbA cbB heardA heardB) = Some c"
  shows "length es \<le> 10
       \<and> (converged c \<longrightarrow> isActive (peerA c) \<and> \<not> isActive (peerB c))
       \<and> (\<not> converged c \<longrightarrow> (\<exists>e c'. fire e c = Some c'))"
proof -
  from start_inv have s: "election_inv idA idB (start idA idB cbA cbB heardA heardB)"
    and w: "weight (start idA idB cbA cbB heardA heardB) \<le> 10" by blast+
  from run_inv[OF assms(1) s assms(2)] have inv: "election_inv idA idB c"
    and len: "length es + weight c \<le> weight (start idA idB cbA cbB heardA heardB)" by blast+
  from len w have "length es \<le> 10" by simp
  moreover have "converged c \<longrightarrow> isActive (peerA c) \<and> \<not> isActive (peerB c)"
    using inv by (auto simp: converged_def election_inv_def)
  moreover have "\<not> converged c \<longrightarrow> (\<exists>e c'. fire e c = Some c')"
    using progress by blast
  ultimately show ?thesis by blast
qed

lemmas run_defs = start_def constructor2_def announcePresence_def fresh_def startHeartbeat2_def
  writeHeartbeat_def requestElection_timeout2_def becomeActive2_def handleAnnounce2_def
  handleActiveClaim2_def newPosts_def handler_defs Let_def

theorem two_peers_converge_witness:
  "''A'' < ''B''
 \<and> run [TimeoutB, DeliverA 1, TimeoutA, DeliverB 1, DeliverA 0, DeliverB 0, DeliverB 0]
       (start ''A'' ''B'' True True True True) \<noteq> None
 \<and> converged (the (run [TimeoutB, DeliverA 1, TimeoutA, DeliverB 1, DeliverA 0, DeliverB 0, DeliverB 0]
       (start ''A'' ''B'' True True True True)))
 \<and> isActive (peerA (the (run [TimeoutB, DeliverA 1, TimeoutA, DeliverB 1, DeliverA 0, DeliverB 0, DeliverB 0]
       (start ''A'' ''B'' True True True True))))
 \<and> \<not> isActive (peerB (the (run [TimeoutB, DeliverA 1, TimeoutA, DeliverB 1, DeliverA 0, DeliverB 0, DeliverB 0]
       (start ''A'' ''B'' True True True True))))"
proof -
  let ?r = "run [TimeoutB, DeliverA 1, TimeoutA, DeliverB 1, DeliverA 0, DeliverB 0, DeliverB 0]
       (start ''A'' ''B'' True True True True)"
  have lt: "''A'' < ''B''" by simp
  have ran: "?r \<noteq> None"
    by (simp add: run_defs)
  have settled: "converged (the ?r)"
    by (simp add: run_defs converged_def)
  from ran have some: "?r = Some (the ?r)" by simp
  note conv = two_peers_converge[OF lt some]
  from conv lt ran settled show ?thesis by blast
qed

end
